theory Spec2Isabelle
  imports Main "HOL-Library.Word"
begin

unbundle bit_operations_syntax

section \<open>PCI configuration space access (core/pci/scan.js)\<close>

text \<open>
  JavaScript numbers that the code forces to unsigned 32 bits (\<open>x >>> 0\<close>) and the
  dwords of configuration space are \<open>32 word\<close>. Bus, slot and function numbers, field
  offsets and byte shifts are plain JavaScript numbers, modelled as \<open>nat\<close>.
\<close>

type_synonym u32 = "32 word"

text \<open>
  Every \<open>throw new Error(...)\<close> of scan.js, by the message it carries:
  \<^item> \<open>AlignmentError\<close>: 'unaligned pci space 32 bit read', 'unaligned pci space 32-bit write',
    'unaligned pci space 16-bit write';
  \<^item> \<open>InvalidAddress\<close>: 'invalid bus value', 'invalid slot value', 'invalid func value';
  \<^item> \<open>InvalidFieldMask\<close>: 'invalid pci space field mask';
  \<^item> \<open>InvalidBarIndex\<close>: 'invalid BAR register index (expected 0-5)';
  \<^item> \<open>WrongDeviceKind\<close>: 'device is a bridge', 'device is not a bridge';
  \<^item> \<open>DuplicateDevice\<close>: 'device on the same address already exists';
  \<^item> \<open>AlreadyAssigned\<close>: 'IRQ vector already set'.
\<close>

datatype error =
    AlignmentError
  | InvalidAddress
  | InvalidFieldMask
  | InvalidBarIndex
  | WrongDeviceKind
  | DuplicateDevice
  | AlreadyAssigned

subsection \<open>The port pair\<close>

text \<open>
  \<open>addressPortResource = io.port(0xCF8)\<close> and \<open>dataPortResource = io.port(0xCFC)\<close> come
  from the native \<open>resources\<close> module, which is not part of scan.js. The hardware behind
  them is a parameter: a state \<open>'h\<close> and the five port operations the code calls.
  A port write receives the value only; the data port is always the one at 0xCFC.
\<close>

record 'h ports =
  addressPort_write32 :: "u32 \<Rightarrow> 'h \<Rightarrow> 'h"
  dataPort_read32 :: "'h \<Rightarrow> u32 \<times> 'h"
  dataPort_write32 :: "u32 \<Rightarrow> 'h \<Rightarrow> 'h"
  dataPort_write16 :: "u32 \<Rightarrow> 'h \<Rightarrow> 'h"
  dataPort_write8 :: "u32 \<Rightarrow> 'h \<Rightarrow> 'h"

text \<open>A configuration space field \<open>{offset, shift, mask}\<close>.\<close>

record field =
  offset :: nat
  shift :: nat
  mask_field :: u32

definition VENDOR_ID :: field where
  "VENDOR_ID = \<lparr>offset = 0x00, shift = 0, mask_field = 0xffff\<rparr>"
definition DEVICE_ID :: field where
  "DEVICE_ID = \<lparr>offset = 0x00, shift = 2, mask_field = 0xffff\<rparr>"
definition COMMAND :: field where
  "COMMAND = \<lparr>offset = 0x04, shift = 0, mask_field = 0xffff\<rparr>"
definition STATUS :: field where
  "STATUS = \<lparr>offset = 0x04, shift = 2, mask_field = 0xffff\<rparr>"
definition REVISION_ID :: field where
  "REVISION_ID = \<lparr>offset = 0x08, shift = 0, mask_field = 0xff\<rparr>"
definition PROG_IF :: field where
  "PROG_IF = \<lparr>offset = 0x08, shift = 1, mask_field = 0xff\<rparr>"
definition SUBCLASS :: field where
  "SUBCLASS = \<lparr>offset = 0x08, shift = 2, mask_field = 0xff\<rparr>"
definition CLASS_CODE :: field where
  "CLASS_CODE = \<lparr>offset = 0x08, shift = 3, mask_field = 0xff\<rparr>"
definition CACHE_LINESIZE :: field where
  "CACHE_LINESIZE = \<lparr>offset = 0x0c, shift = 0, mask_field = 0xff\<rparr>"
definition LATENCY_TIMER :: field where
  "LATENCY_TIMER = \<lparr>offset = 0x0c, shift = 1, mask_field = 0xff\<rparr>"
definition HEADER_TYPE :: field where
  "HEADER_TYPE = \<lparr>offset = 0x0c, shift = 2, mask_field = 0xff\<rparr>"
definition BIST :: field where
  "BIST = \<lparr>offset = 0x0c, shift = 3, mask_field = 0xff\<rparr>"

text \<open>\<open>generalFields\<close> (header type 0x00).\<close>

definition BAR :: "field list" where
  "BAR = [\<lparr>offset = 0x10, shift = 0, mask_field = 0xffffffff\<rparr>,
          \<lparr>offset = 0x14, shift = 0, mask_field = 0xffffffff\<rparr>,
          \<lparr>offset = 0x18, shift = 0, mask_field = 0xffffffff\<rparr>,
          \<lparr>offset = 0x1c, shift = 0, mask_field = 0xffffffff\<rparr>,
          \<lparr>offset = 0x20, shift = 0, mask_field = 0xffffffff\<rparr>,
          \<lparr>offset = 0x24, shift = 0, mask_field = 0xffffffff\<rparr>]"
definition SUBSYS_VENDOR :: field where
  "SUBSYS_VENDOR = \<lparr>offset = 0x2c, shift = 0, mask_field = 0xffff\<rparr>"
definition SUBSYS_ID :: field where
  "SUBSYS_ID = \<lparr>offset = 0x2c, shift = 2, mask_field = 0xffff\<rparr>"
definition INTERRUPT_LINE :: field where
  "INTERRUPT_LINE = \<lparr>offset = 0x3c, shift = 0, mask_field = 0xff\<rparr>"
definition INTERRUPT_PIN :: field where
  "INTERRUPT_PIN = \<lparr>offset = 0x3c, shift = 1, mask_field = 0xff\<rparr>"

text \<open>\<open>bridgeFields\<close> (header type 0x01 or 0x02).\<close>

definition PRIMARY_BUS :: field where
  "PRIMARY_BUS = \<lparr>offset = 0x18, shift = 0, mask_field = 0xff\<rparr>"
definition SECONDARY_BUS :: field where
  "SECONDARY_BUS = \<lparr>offset = 0x18, shift = 1, mask_field = 0xff\<rparr>"
definition SUBORDINATE :: field where
  "SUBORDINATE = \<lparr>offset = 0x18, shift = 2, mask_field = 0xff\<rparr>"

text \<open>
  \<open>setPort\<close>: the address written to the address port. \<open><<\<close> and \<open>|\<close> work on the low
  32 bits of their operands, which is what \<open>of_nat\<close> into \<open>32 word\<close> keeps.
\<close>

definition config_address :: "nat \<Rightarrow> nat \<Rightarrow> nat \<Rightarrow> nat \<Rightarrow> u32" where
  "config_address bus slot func off =
     push_bit 16 (of_nat bus) OR push_bit 11 (of_nat slot) OR push_bit 8 (of_nat func) OR
     (of_nat off AND 0xfc) OR 0x80000000"

definition setPort :: "'h ports \<Rightarrow> nat \<Rightarrow> nat \<Rightarrow> nat \<Rightarrow> nat \<Rightarrow> 'h \<Rightarrow> 'h" where
  "setPort P bus slot func off h = addressPort_write32 P (config_address bus slot func off) h"

definition readRaw32 ::
  "'h ports \<Rightarrow> nat \<Rightarrow> nat \<Rightarrow> nat \<Rightarrow> nat \<Rightarrow> 'h \<Rightarrow> (error + u32) \<times> 'h" where
  "readRaw32 P bus slot func off h =
     (if off mod 4 \<noteq> 0 then (Inl AlignmentError, h)
      else (case dataPort_read32 P (setPort P bus slot func off h) of
              (v, h') \<Rightarrow> (Inr v, h')))"

text \<open>\<open>dwToFieldValue\<close>: \<open>>>>\<close> takes its shift count modulo 32.\<close>

definition dwToFieldValue :: "u32 \<Rightarrow> field \<Rightarrow> u32" where
  "dwToFieldValue v fld = drop_bit ((8 * 1 * shift fld) mod 32) v AND mask_field fld"

subsection \<open>PciAccessor and its factory\<close>

text \<open>
  An accessor is identified by the key of the factory's \<open>accessorCache\<close>,
  \<open>JSON.stringify([bus, slot, func])\<close>, here the triple itself. Its closure holds
  \<open>bus >>> 0\<close>, \<open>slot >>> 0\<close>, \<open>func >>> 0\<close> and its own \<open>offsetCache\<close>. The store
  \<open>offsetCache\<close> below gives the cache of each accessor object by key, so that two
  references to one accessor share it; \<open>accessorCache\<close> is the set of keys the factory
  has memoized.
\<close>

type_synonym key = "nat \<times> nat \<times> nat"

record 'h cfg =
  hw :: 'h
  accessorCache :: "key set"
  offsetCache :: "key \<Rightarrow> (nat \<rightharpoonup> u32)"

definition uint32 :: "nat \<Rightarrow> nat" where
  "uint32 n = n mod 2 ^ 32"

definition acc_bus :: "key \<Rightarrow> nat" where "acc_bus k = uint32 (fst k)"
definition acc_slot :: "key \<Rightarrow> nat" where "acc_slot k = uint32 (fst (snd k))"
definition acc_func :: "key \<Rightarrow> nat" where "acc_func k = uint32 (snd (snd k))"

definition writeRaw32 :: "'h ports \<Rightarrow> key \<Rightarrow> nat \<Rightarrow> u32 \<Rightarrow> 'h \<Rightarrow> (error + unit) \<times> 'h" where
  "writeRaw32 P k off v h =
     (if off mod 4 \<noteq> 0 then (Inl AlignmentError, h)
      else (Inr (), dataPort_write32 P v (setPort P (acc_bus k) (acc_slot k) (acc_func k) off h)))"

definition writeRaw16 :: "'h ports \<Rightarrow> key \<Rightarrow> nat \<Rightarrow> u32 \<Rightarrow> 'h \<Rightarrow> (error + unit) \<times> 'h" where
  "writeRaw16 P k off v h =
     (if off mod 2 \<noteq> 0 then (Inl AlignmentError, h)
      else (Inr (), dataPort_write16 P (v AND 0xffff)
              (setPort P (acc_bus k) (acc_slot k) (acc_func k) off h)))"

definition writeRaw8 :: "'h ports \<Rightarrow> key \<Rightarrow> nat \<Rightarrow> u32 \<Rightarrow> 'h \<Rightarrow> (error + unit) \<times> 'h" where
  "writeRaw8 P k off v h =
     (Inr (), dataPort_write8 P (v AND 0xff)
        (setPort P (acc_bus k) (acc_slot k) (acc_func k) off h))"

text \<open>\<open>PciAccessor.read\<close>: the cached dword of the field's offset, or a hardware read that fills the cache.\<close>

definition read :: "'h ports \<Rightarrow> key \<Rightarrow> field \<Rightarrow> 'h cfg \<Rightarrow> (error + u32) \<times> 'h cfg" where
  "read P k fld c =
     (case offsetCache c k (offset fld) of
        Some v \<Rightarrow> (Inr (dwToFieldValue v fld), c)
      | None \<Rightarrow>
          (case readRaw32 P (acc_bus k) (acc_slot k) (acc_func k) (offset fld) (hw c) of
             (Inl e, h') \<Rightarrow> (Inl e, c\<lparr>hw := h'\<rparr>)
           | (Inr v, h') \<Rightarrow>
               (Inr (dwToFieldValue v fld),
                c\<lparr>hw := h', offsetCache := (offsetCache c)(k := (offsetCache c k)(offset fld \<mapsto> v))\<rparr>)))"

text \<open>
  \<open>PciAccessor.write\<close> (\<open>write\<close> is a keyword of Isabelle, hence \<open>writeField\<close>):
  \<open>offsetCache.delete(field.offset)\<close> comes first, then the write
  chosen by the mask; an exception leaves the deletion in place.
\<close>

definition writeField :: "'h ports \<Rightarrow> key \<Rightarrow> field \<Rightarrow> u32 \<Rightarrow> 'h cfg \<Rightarrow> (error + unit) \<times> 'h cfg" where
  "writeField P k fld v c =
     (let c1 = c\<lparr>offsetCache := (offsetCache c)(k := (offsetCache c k)(offset fld := None))\<rparr>
      in if mask_field fld = 0xffffffff then
           (case writeRaw32 P k (offset fld) v (hw c1) of (r, h') \<Rightarrow> (r, c1\<lparr>hw := h'\<rparr>))
         else if mask_field fld = 0xffff then
           (case writeRaw16 P k (offset fld + shift fld) v (hw c1) of (r, h') \<Rightarrow> (r, c1\<lparr>hw := h'\<rparr>))
         else if mask_field fld = 0xff then
           (case writeRaw8 P k (offset fld + shift fld) v (hw c1) of (r, h') \<Rightarrow> (r, c1\<lparr>hw := h'\<rparr>))
         else (Inl InvalidFieldMask, c1))"

text \<open>
  \<open>pciAccessorFactory.get\<close>: a memoized key is returned as it is; otherwise the
  constructor validates the address and the new accessor starts with an empty cache.
\<close>

definition get :: "key \<Rightarrow> 'h cfg \<Rightarrow> (error + key) \<times> 'h cfg" where
  "get k c =
     (if k \<in> accessorCache c then (Inr k, c)
      else if acc_bus k > 255 then (Inl InvalidAddress, c)
      else if acc_slot k > 31 then (Inl InvalidAddress, c)
      else if acc_func k > 7 then (Inl InvalidAddress, c)
      else (Inr k, c\<lparr>accessorCache := insert k (accessorCache c),
                     offsetCache := (offsetCache c)(k := Map.empty)\<rparr>))"

text \<open>\<open>pciAccessorFactory.exists\<close>: an uncached read of the vendor id.\<close>

definition exists :: "'h ports \<Rightarrow> nat \<Rightarrow> nat \<Rightarrow> nat \<Rightarrow> 'h \<Rightarrow> (error + bool) \<times> 'h" where
  "exists P bus slot func h =
     (case readRaw32 P bus slot func (offset VENDOR_ID) h of
        (Inl e, h') \<Rightarrow> (Inl e, h')
      | (Inr v, h') \<Rightarrow> (Inr (dwToFieldValue v VENDOR_ID \<noteq> 0xffff), h'))"

subsection \<open>Sequencing\<close>

text \<open>
  A call that may throw returns \<open>Inl\<close> of the error and the state reached when it was
  thrown; \<open>andThen\<close> runs the rest of a function body only after a normal return.
\<close>

definition andThen ::
  "('s \<Rightarrow> (error + 'a) \<times> 's) \<Rightarrow> ('a \<Rightarrow> 's \<Rightarrow> (error + 'b) \<times> 's) \<Rightarrow> 's \<Rightarrow> (error + 'b) \<times> 's" where
  "andThen m f s = (case m s of (Inl e, s') \<Rightarrow> (Inl e, s') | (Inr a, s') \<Rightarrow> f a s')"

subsection \<open>External handles\<close>

text \<open>
  The resource handles of the \<open>resources\<close> module, kept as the call that made them:
  \<open>io.subrange(first, last)\<close>, \<open>memrange.block(base, size)\<close> and \<open>irqRange.irq(vector)\<close>.
\<close>

datatype resource = IoSubrange nat nat | MemoryBlock u32 u32

datatype irq_handle = Irq u32

text \<open>An entry of an ACPI IRQ routing table, \<open>{deviceId, pin, irq}\<close>.\<close>

record route =
  route_deviceId :: nat
  route_pin :: nat
  route_irq :: nat

text \<open>
  An ACPI device node, by what its methods return: \<open>isDevice()\<close>, \<open>isRootBridge()\<close>,
  \<open>address()\<close>, \<open>getRootBridgeBusNumber()\<close>, \<open>parent()\<close> (\<open>None\<close> for null) and
  \<open>getIrqRoutingTable()\<close> (\<open>None\<close> when the result is not an array).
\<close>

datatype acpiDevice =
  AcpiDevice (acpi_isDevice: bool) (acpi_isRootBridge: bool) (acpi_address: u32)
    (acpi_getRootBridgeBusNumber: nat) (acpi_parent: "acpiDevice option")
    (acpi_getIrqRoutingTable: "route list option")

section \<open>PciDevice\<close>

record pci_address =
  bus :: nat
  slot :: nat
  func :: nat

definition addressHash :: "pci_address \<Rightarrow> key" where
  "addressHash a = (bus a, slot a, func a)"

text \<open>
  The object built by \<open>new PciDevice(address, pciAccessor)\<close>: the accessor it was given
  (by key), the values read at construction, and its two assignable fields,
  \<open>that.acpiDevice\<close> and \<open>irqVector\<close>, both null at first.
\<close>

record pciDevice =
  pciAccessor :: key
  address :: pci_address
  vendorId :: u32
  deviceId :: u32
  isBridge :: bool
  acpiDevice :: "acpiDevice option"
  irqVector :: "u32 option"

definition PciDevice :: "'h ports \<Rightarrow> pci_address \<Rightarrow> key \<Rightarrow> 'h cfg \<Rightarrow> (error + pciDevice) \<times> 'h cfg" where
  "PciDevice P addr k =
     andThen (read P k VENDOR_ID) (\<lambda>vendor.
     andThen (read P k DEVICE_ID) (\<lambda>device.
     andThen (read P k HEADER_TYPE) (\<lambda>header c.
       (let headerType = header AND 0x7f
        in (Inr \<lparr>pciAccessor = k, address = addr, vendorId = vendor, deviceId = device,
                   isBridge = (0x01 = headerType \<or> 0x02 = headerType),
                   acpiDevice = None, irqVector = None\<rparr>, c)))))"

definition attachAcpiDevice :: "acpiDevice \<Rightarrow> pciDevice \<Rightarrow> (error + unit) \<times> pciDevice" where
  "attachAcpiDevice a d =
     (if acpiDevice d \<noteq> None then (Inr (), d)
      else (Inr (), d\<lparr>acpiDevice := Some a\<rparr>))"


definition setCommandFlag :: "'h ports \<Rightarrow> pciDevice \<Rightarrow> nat \<Rightarrow> 'h cfg \<Rightarrow> (error + unit) \<times> 'h cfg" where
  "setCommandFlag P d flag =
     andThen (read P (pciAccessor d) COMMAND) (\<lambda>v.
       writeField P (pciAccessor d) COMMAND (v OR push_bit (flag mod 32) 1))"

definition getIRQVector :: "pciDevice \<Rightarrow> u32 option" where
  "getIRQVector d = irqVector d"

text \<open>\<open>setIRQVector\<close> stores \<open>vector >>> 0\<close>, once.\<close>

definition setIRQVector :: "nat \<Rightarrow> pciDevice \<Rightarrow> (error + unit) \<times> pciDevice" where
  "setIRQVector vector d =
     (if irqVector d \<noteq> None then (Inl AlreadyAssigned, d)
      else (Inr (), d\<lparr>irqVector := Some (of_nat vector)\<rparr>))"

definition interruptPin :: "'h ports \<Rightarrow> pciDevice \<Rightarrow> 'h cfg \<Rightarrow> (error + u32) \<times> 'h cfg" where
  "interruptPin P d c =
     (if isBridge d then (Inl WrongDeviceKind, c)
      else read P (pciAccessor d) INTERRUPT_PIN c)"

definition classCodes :: "string list" where
  "classCodes =
     [''Unclassified'', ''Mass Storage Controller'', ''Network Controller'',
      ''Display Controller'', ''Multimedia Controller'', ''Memory Controller'',
      ''Bridge Device'', ''Simple Communication Controller'', ''Base System Peripheral'',
      ''Input Device'', ''Docking Station'', ''Processor'', ''Serial Bus Controller'',
      ''Wireless Controller'', ''Intelligent I/O Controller'',
      ''Satellite Communication Controller'', ''Encryption/Decryption Controller'',
      ''Data Acquisition and Signal Processing Controller'']"

definition classCodeToName :: "u32 \<Rightarrow> string" where
  "classCodeToName code =
     (if unat code < length classCodes then classCodes ! unat code else classCodes ! 0)"

record class_data =
  classCode :: u32
  className :: string
  subclass_code :: u32

definition classData :: "'h ports \<Rightarrow> pciDevice \<Rightarrow> 'h cfg \<Rightarrow> (error + class_data) \<times> 'h cfg" where
  "classData P d =
     andThen (read P (pciAccessor d) CLASS_CODE) (\<lambda>code.
     andThen (read P (pciAccessor d) SUBCLASS) (\<lambda>sub c.
       (Inr \<lparr>classCode = code, className = classCodeToName code, subclass_code = sub\<rparr>, c)))"

record subsystem_data =
  subsystemId :: u32
  subsystemVendor :: u32

definition subsystemData :: "'h ports \<Rightarrow> pciDevice \<Rightarrow> 'h cfg \<Rightarrow> (error + subsystem_data) \<times> 'h cfg" where
  "subsystemData P d c =
     (if isBridge d then (Inl WrongDeviceKind, c)
      else andThen (read P (pciAccessor d) SUBSYS_ID) (\<lambda>sid.
           andThen (read P (pciAccessor d) SUBSYS_VENDOR) (\<lambda>svendor c'.
             (Inr \<lparr>subsystemId = sid, subsystemVendor = svendor\<rparr>, c'))) c)"

subsection \<open>getBAR\<close>

text \<open>The object \<open>{type, base, size, resource}\<close> that \<open>getBAR\<close> returns when it is not null.\<close>

record bar =
  bar_type :: string
  bar_base :: u32
  bar_size :: u32
  bar_resource :: resource

definition BAR_IO :: u32 where "BAR_IO = 0x01"
definition BAR_64 :: u32 where "BAR_64 = 0x04"

text \<open>
  The last statements of \<open>getBAR\<close>: null when \<open>barType\<close> or \<open>obj\<close> is still null, the
  object otherwise.
\<close>

definition barReturn :: "string option \<Rightarrow> u32 \<Rightarrow> u32 \<Rightarrow> resource option \<Rightarrow> bar option" where
  "barReturn barType base sz obj =
     (case barType of
        None \<Rightarrow> None
      | Some t \<Rightarrow>
          (case obj of
             None \<Rightarrow> None
           | Some r \<Rightarrow> Some \<lparr>bar_type = t, bar_base = base, bar_size = sz, bar_resource = r\<rparr>))"

text \<open>
  The part of \<open>getBAR\<close> after the probe, from \<open>var base = 0\<close> on: a function of the two
  values read, \<open>barAddr\<close> and \<open>barSize\<close> (nonzero when it is reached). The 64-bit test
  comes first and leaves \<open>obj\<close> null. \<open>~x + 1\<close> and \<open>base + size - 1\<close> are computed
  without wrap-around in JavaScript; the masks that follow keep the low 32 bits of the
  former, and the latter is below \<open>2 ^ 17\<close>.
\<close>

definition decodeBAR :: "u32 \<Rightarrow> u32 \<Rightarrow> bar option" where
  "decodeBAR barAddr barSize =
     (if barAddr AND BAR_64 \<noteq> 0 then barReturn (Some ''mem64'') 0 0 None
      else if barAddr AND BAR_IO \<noteq> 0 then
        (let base = (barAddr AND NOT 0x3) AND 0xffff;
             sz = (NOT (barSize AND NOT 0x3) + 1) AND 0xffff
         in if 0 = sz then None
            else if 0 = base then None
            else barReturn (Some ''io'') base sz
                   (Some (IoSubrange (unat base) (unat base + unat sz - 1))))
      else
        (let base = barAddr AND 0xfffffff0;
             sz = (NOT (barSize AND 0xfffffff0) + 1) AND 0xffffffff
         in if 0 = sz then None
            else barReturn (Some ''mem32'') base sz (Some (MemoryBlock base sz))))"

text \<open>
  \<open>getBAR(index)\<close>: the checks, the read of the BAR (null when it reads 0), the write of
  all-ones, the read of the response, the write of the value first read (null when the
  response is 0), then the decoding.
\<close>

definition getBAR :: "'h ports \<Rightarrow> pciDevice \<Rightarrow> nat \<Rightarrow> 'h cfg \<Rightarrow> (error + bar option) \<times> 'h cfg" where
  "getBAR P d index c =
     (if isBridge d then (Inl WrongDeviceKind, c)
      else if uint32 index > 5 then (Inl InvalidBarIndex, c)
      else
        (let barField = BAR ! uint32 index
         in andThen (read P (pciAccessor d) barField) (\<lambda>barAddr c1.
              if barAddr = 0 then (Inr None, c1)
              else andThen (writeField P (pciAccessor d) barField 0xffffffff) (\<lambda>_.
                   andThen (read P (pciAccessor d) barField) (\<lambda>barSize.
                   andThen (writeField P (pciAccessor d) barField barAddr) (\<lambda>_ c4.
                     if barSize = 0 then (Inr None, c4)
                     else (Inr (decodeBAR barAddr barSize), c4)))) c1) c))"

section \<open>ACPI resolution\<close>

text \<open>
  \<open>locateAcpiDevice\<close>: the object \<open>{bus, slot, func}\<close> or null. The recursion is on the
  parent node; the parent's accessor comes from the factory, whose constructor may throw.
\<close>

fun locateAcpiDevice ::
  "'h ports \<Rightarrow> acpiDevice \<Rightarrow> 'h cfg \<Rightarrow> (error + pci_address option) \<times> 'h cfg" where
  "locateAcpiDevice P (AcpiDevice isDev isRoot addr rootBus par routes) c =
     (if \<not> isDev then (Inr None, c)
      else
        (let slotId = unat (drop_bit 16 addr AND 0xffff);
             funcId = unat (addr AND 0xffff)
         in if isRoot then (Inr (Some \<lparr>bus = rootBus, slot = slotId, func = funcId\<rparr>), c)
            else
              (case par of
                 None \<Rightarrow> (Inr None, c)
               | Some parentDev \<Rightarrow>
                   if \<not> acpi_isDevice parentDev then (Inr None, c)
                   else if acpi_isRootBridge parentDev then
                     (Inr (Some \<lparr>bus = acpi_getRootBridgeBusNumber parentDev,
                                 slot = slotId, func = funcId\<rparr>), c)
                   else
                     (case locateAcpiDevice P parentDev c of
                        (Inl e, c1) \<Rightarrow> (Inl e, c1)
                      | (Inr None, c1) \<Rightarrow> (Inr None, c1)
                      | (Inr (Some parentLocation), c1) \<Rightarrow>
                          andThen (get (addressHash parentLocation)) (\<lambda>pciParent.
                          andThen (read P pciParent HEADER_TYPE) (\<lambda>header c3.
                            (let headerType = header AND 0x7f
                             in if 0x01 \<noteq> headerType \<and> 0x02 \<noteq> headerType then (Inr None, c3)
                                else andThen (read P pciParent SECONDARY_BUS) (\<lambda>bridgeBus c4.
                                       (Inr (Some \<lparr>bus = unat bridgeBus, slot = slotId,
                                                   func = funcId\<rparr>), c4)) c3))) c1))))"

section \<open>pciManager\<close>

text \<open>
  \<open>devicesMap\<close> is a JavaScript \<open>Map\<close>: it keeps its entries in insertion order, and
  \<open>addDevice\<close> stores each device under \<open>addressHash\<close> of the address the device itself
  holds. It is the list of the devices in that order, the key of an entry being
  \<open>addressHash (address d)\<close>.
\<close>

fun findDevice :: "pci_address \<Rightarrow> pciDevice list \<Rightarrow> pciDevice option" where
  "findDevice a [] = None"
| "findDevice a (d # ds) =
     (if addressHash (address d) = addressHash a then Some d else findDevice a ds)"

definition addDevice ::
  "'h ports \<Rightarrow> pci_address \<Rightarrow> key \<Rightarrow> pciDevice list \<Rightarrow> 'h cfg \<Rightarrow> (error + pciDevice list) \<times> 'h cfg" where
  "addDevice P a k devicesMap c =
     (if findDevice a devicesMap \<noteq> None then (Inl DuplicateDevice, c)
      else andThen (PciDevice P a k) (\<lambda>d c'. (Inr (devicesMap @ [d]), c')) c)"


text \<open>
  \<open>pciManager.each(fn)\<close>: the callback runs on every device in insertion order. It may
  change the device it is given and the rest of the state \<open>'s\<close>; an exception stops the
  traversal.
\<close>

fun each ::
  "(pciDevice \<Rightarrow> 's \<Rightarrow> (error + unit) \<times> pciDevice \<times> 's) \<Rightarrow> pciDevice list \<Rightarrow> 's \<Rightarrow>
   (error + unit) \<times> pciDevice list \<times> 's" where
  "each fn [] s = (Inr (), [], s)"
| "each fn (d # ds) s =
     (case fn d s of
        (Inl e, d', s') \<Rightarrow> (Inl e, d' # ds, s')
      | (Inr u, d', s') \<Rightarrow>
          (case each fn ds s' of (r, ds', s'') \<Rightarrow> (r, d' # ds', s'')))"

section \<open>The boot passes\<close>

subsection \<open>Attaching ACPI handles\<close>




subsection \<open>Setting IRQs\<close>

text \<open>
  \<open>routing.forEach\<close> with the variable \<open>deviceIRQ\<close> it assigns: a \<open>return\<close> in the
  callback ends the visit of one entry only.
\<close>

fun scanRoutes :: "nat \<Rightarrow> u32 \<Rightarrow> route list \<Rightarrow> nat option \<Rightarrow> nat option" where
  "scanRoutes slotNo devicePin [] deviceIRQ = deviceIRQ"
| "scanRoutes slotNo devicePin (r # rs) deviceIRQ =
     scanRoutes slotNo devicePin rs
       (if slotNo \<noteq> route_deviceId r then deviceIRQ
        else if unat devicePin \<noteq> route_pin r + 1 then deviceIRQ
        else Some (route_irq r))"

definition setIRQ ::
  "'h ports \<Rightarrow> (nat \<rightharpoonup> route list) \<Rightarrow> pciDevice \<Rightarrow> 'h cfg \<Rightarrow> (error + unit) \<times> pciDevice \<times> 'h cfg" where
  "setIRQ P busRouting pciDev c =
     (if isBridge pciDev then (Inr (), pciDev, c)
      else
        (case busRouting (bus (address pciDev)) of
           None \<Rightarrow> (Inr (), pciDev, c)
         | Some routing \<Rightarrow>
             (case interruptPin P pciDev c of
                (Inl e, c1) \<Rightarrow> (Inl e, pciDev, c1)
              | (Inr devicePin, c1) \<Rightarrow>
                  if 0 = devicePin then (Inr (), pciDev, c1)
                  else
                    (case scanRoutes (slot (address pciDev)) devicePin routing None of
                       None \<Rightarrow> (Inr (), pciDev, c1)
                     | Some deviceIRQ \<Rightarrow>
                         (case setIRQVector deviceIRQ pciDev of
                            (r, pciDev') \<Rightarrow> (r, pciDev', c1))))))"


subsection \<open>The BAR loop\<close>

text \<open>The object \<open>{type, resource}\<close> kept for a BAR that is not null.\<close>

record bar_data =
  data_type :: string
  data_resource :: resource

definition barData :: "bar option \<Rightarrow> bar_data option" where
  "barData b =
     (case b of
        None \<Rightarrow> None
      | Some x \<Rightarrow> Some \<lparr>data_type = bar_type x, data_resource = bar_resource x\<rparr>)"

text \<open>
  \<open>for (var i = 0; i < 6; ++i)\<close> with \<open>getBAR(i)\<close> and the \<open>push\<close> of its data, as it
  stands both in the driver pass and in \<open>listPciDevices\<close>.
\<close>

function collectBars ::
  "'h ports \<Rightarrow> pciDevice \<Rightarrow> nat \<Rightarrow> bar_data option list \<Rightarrow> 'h cfg \<Rightarrow>
   (error + bar_data option list) \<times> 'h cfg" where
  "collectBars P d i bars c =
     (if i < 6 then
        (case getBAR P d i c of
           (Inl e, c') \<Rightarrow> (Inl e, c')
         | (Inr b, c') \<Rightarrow> collectBars P d (Suc i) (bars @ [barData b]) c')
      else (Inr bars, c))"
  by pat_completeness auto
termination
  by (relation "measure (\<lambda>(P, d, i, bars, c). 6 - i)") auto

declare collectBars.simps [simp del]

subsection \<open>Starting drivers\<close>

text \<open>
  The driver metadata \<open>{driver, enabled, busMaster}\<close> (\<open>driver\<close> may be undefined), the
  argument \<open>{pci: {bars, irq, classData, subsystemData}, allocator}\<close> handed to a driver
  (the allocator is one fixed external handle and is left out), and the commandFlags
  the pass uses.
\<close>

record driver_data =
  driver :: "string option"
  enabled :: bool
  busMaster :: bool

record driver_args =
  args_bars :: "bar_data option list"
  args_irq :: "irq_handle option"
  args_classData :: class_data
  args_subsystemData :: subsystem_data

definition MemorySpace :: nat where "MemorySpace = 1"
definition BusMaster :: nat where "BusMaster = 2"

text \<open>
  The statements of the callback after its guard, from \<open>var irqVector\<close> to the call of
  the driver module, which is recorded in the list \<open>started\<close> of driver names and
  arguments.
\<close>

definition dispatchDriver ::
  "'h ports \<Rightarrow> driver_data \<Rightarrow> string \<Rightarrow> pciDevice \<Rightarrow> (string \<times> driver_args) list \<times> 'h cfg \<Rightarrow>
   (error + unit) \<times> (string \<times> driver_args) list \<times> 'h cfg" where
  "dispatchDriver P dd name pciDev s =
     (case s of (started, c) \<Rightarrow>
        (let irqObject = (case getIRQVector pciDev of None \<Rightarrow> None | Some v \<Rightarrow> Some (Irq v))
         in case
              andThen (collectBars P pciDev 0 []) (\<lambda>argsBars.
              andThen (if busMaster dd
                       then andThen (setCommandFlag P pciDev BusMaster)
                              (\<lambda>_. setCommandFlag P pciDev MemorySpace)
                       else (\<lambda>c'. (Inr (), c'))) (\<lambda>_.
              andThen (classData P pciDev) (\<lambda>cls.
              andThen (subsystemData P pciDev) (\<lambda>sub c'.
                (Inr \<lparr>args_bars = argsBars, args_irq = irqObject, args_classData = cls,
                       args_subsystemData = sub\<rparr>, c'))))) c
            of
              (Inl e, c') \<Rightarrow> (Inl e, started, c')
            | (Inr driverArgs, c') \<Rightarrow> (Inr (), started @ [(name, driverArgs)], c')))"

text \<open>The callback of the pass: \<open>var driverData = null\<close>, then the guard.\<close>

definition startDriver ::
  "'h ports \<Rightarrow> pciDevice \<Rightarrow> (string \<times> driver_args) list \<times> 'h cfg \<Rightarrow>
   (error + unit) \<times> pciDevice \<times> (string \<times> driver_args) list \<times> 'h cfg" where
  "startDriver P pciDev s =
     (let vendor = vendorId pciDev;
          device = deviceId pciDev;
          driverData = (None :: driver_data option)
      in case driverData of
           None \<Rightarrow> (Inr (), pciDev, s)
         | Some dd \<Rightarrow>
             (case driver dd of
                None \<Rightarrow> (Inr (), pciDev, s)
              | Some name \<Rightarrow>
                  if enabled dd
                  then (case dispatchDriver P dd name pciDev s of (r, s') \<Rightarrow> (r, pciDev, s'))
                  else (Inr (), pciDev, s)))"

definition startDrivers ::
  "'h ports \<Rightarrow> pciDevice list \<Rightarrow> (string \<times> driver_args) list \<times> 'h cfg \<Rightarrow>
   (error + unit) \<times> pciDevice list \<times> (string \<times> driver_args) list \<times> 'h cfg" where
  "startDrivers P devicesMap s = each (startDriver P) devicesMap s"

section \<open>listPciDevices\<close>

text \<open>
  An element of the result. \<open>pin\<close> is \<open>pins[devicePin]\<close> with
  \<open>pins = [null, 'A', 'B', 'C', 'D']\<close>: \<open>None\<close> stands for null and for undefined.
\<close>

record device_summary =
  sum_bus :: nat
  sum_slot :: nat
  sum_func :: nat
  sum_vendorId :: u32
  sum_deviceId :: u32
  sum_className :: string
  sum_subsystemData :: subsystem_data
  sum_irqVector :: "u32 option"
  sum_pin :: "string option"
  sum_pciAccessor :: key
  sum_irq :: "irq_handle option"
  sum_bars :: "bar_data option list"

definition pins :: "string option list" where
  "pins = [None, Some ''A'', Some ''B'', Some ''C'', Some ''D'']"

definition pinName :: "u32 \<Rightarrow> string option" where
  "pinName devicePin = (if unat devicePin < length pins then pins ! unat devicePin else None)"

text \<open>The callback of \<open>pciManager.each\<close> in \<open>listPciDevices\<close>; it changes no device.\<close>

definition listDevice ::
  "'h ports \<Rightarrow> pciDevice \<Rightarrow> device_summary list \<times> 'h cfg \<Rightarrow>
   (error + unit) \<times> pciDevice \<times> device_summary list \<times> 'h cfg" where
  "listDevice P pciDev s =
     (case s of (results, c) \<Rightarrow>
        if isBridge pciDev then (Inr (), pciDev, results, c)
        else
          (case
             andThen (classData P pciDev) (\<lambda>cls.
             andThen (subsystemData P pciDev) (\<lambda>sub.
             andThen (if \<not> isBridge pciDev then interruptPin P pciDev
                      else (\<lambda>c'. (Inr 0, c'))) (\<lambda>devicePin.
             andThen (collectBars P pciDev 0 []) (\<lambda>bars c'.
               (Inr \<lparr>sum_bus = bus (address pciDev), sum_slot = slot (address pciDev),
                      sum_func = func (address pciDev), sum_vendorId = vendorId pciDev,
                      sum_deviceId = deviceId pciDev, sum_className = className cls,
                      sum_subsystemData = sub, sum_irqVector = getIRQVector pciDev,
                      sum_pin = pinName devicePin, sum_pciAccessor = pciAccessor pciDev,
                      sum_irq = (case getIRQVector pciDev of
                                   None \<Rightarrow> None
                                 | Some v \<Rightarrow> Some (Irq v)),
                      sum_bars = bars\<rparr>, c'))))) c
           of
             (Inl e, c') \<Rightarrow> (Inl e, pciDev, results, c')
           | (Inr summary, c') \<Rightarrow> (Inr (), pciDev, results @ [summary], c')))"

definition listPciDevices ::
  "'h ports \<Rightarrow> pciDevice list \<Rightarrow> 'h cfg \<Rightarrow> (error + device_summary list) \<times> 'h cfg" where
  "listPciDevices P devicesMap c =
     (case each (listDevice P) devicesMap ([], c) of
        (Inl e, ds, results, c') \<Rightarrow> (Inl e, c')
      | (Inr u, ds, results, c') \<Rightarrow> (Inr results, c'))"

section \<open>A simulated configuration space\<close>

text \<open>
  Modelled from the spec: the hardware behind the port pair, which is native code and no
  part of scan.js. The spec describes it as a "per-function register block reached
  indirectly via an address/data port pair", with "aligned 8/16/32-bit reads/writes
  into configuration-space dwords", and its end-to-end test uses "a simulated
  configuration space" in which a BAR with raw value 0xFE000000 answers the all-ones
  probe with 0xFFF00000. So: the address port latches the address of a dword; the data
  port reads that dword; a write of 32, 16 or 8 bits to the data port (the port at
  0xCFC, the first byte of the dword) replaces the low 32, 16 or 8 bits of the dword,
  in the bits that the register lets software change (\<open>writable\<close>), and keeps the others.
\<close>

record sim_hw =
  latch :: u32
  regs :: "u32 \<Rightarrow> u32"
  writable :: "u32 \<Rightarrow> u32"

definition sim_store :: "u32 \<Rightarrow> u32 \<Rightarrow> sim_hw \<Rightarrow> sim_hw" where
  "sim_store lanes v h =
     h\<lparr>regs := (regs h)(latch h :=
          (v AND (lanes AND writable h (latch h))) OR
          (regs h (latch h) AND NOT (lanes AND writable h (latch h))))\<rparr>"

definition simPorts :: "sim_hw ports" where
  "simPorts =
     \<lparr>addressPort_write32 = (\<lambda>a h. h\<lparr>latch := a\<rparr>),
      dataPort_read32 = (\<lambda>h. (regs h (latch h), h)),
      dataPort_write32 = sim_store 0xffffffff,
      dataPort_write16 = sim_store 0xffff,
      dataPort_write8 = sim_store 0xff\<rparr>"

text \<open>The dword of a function's register block at an offset.\<close>

definition sim_reg :: "sim_hw \<Rightarrow> key \<Rightarrow> nat \<Rightarrow> u32" where
  "sim_reg h k off = regs h (config_address (acc_bus k) (acc_slot k) (acc_func k) off)"

section \<open>Notions used in the statements\<close>

text \<open>
  The hardware read that \<open>PciAccessor.read\<close> performs when the cache has no entry:
  \<open>setPort\<close> with the accessor's address, then \<open>dataPort.read32()\<close>.
\<close>

definition rawRead :: "'h ports \<Rightarrow> key \<Rightarrow> nat \<Rightarrow> 'h \<Rightarrow> u32 \<times> 'h" where
  "rawRead P k off h = dataPort_read32 P (setPort P (acc_bus k) (acc_slot k) (acc_func k) off h)"

text \<open>
  The steps of the probe in \<open>getBAR\<close>, each from the accessor calls of the source:
  the raw value (\<open>barAddr\<close>, the first read), the state after the write of all-ones,
  the response (\<open>barSize\<close>, the second read), and the state after the write of a
  value \<open>a\<close> that follows the second read.
\<close>

definition barValue :: "'h ports \<Rightarrow> pciDevice \<Rightarrow> nat \<Rightarrow> 'h cfg \<Rightarrow> error + u32" where
  "barValue P d i c = fst (read P (pciAccessor d) (BAR ! i) c)"

definition probeWritten :: "'h ports \<Rightarrow> pciDevice \<Rightarrow> nat \<Rightarrow> 'h cfg \<Rightarrow> 'h cfg" where
  "probeWritten P d i c =
     snd (writeField P (pciAccessor d) (BAR ! i) 0xffffffff (snd (read P (pciAccessor d) (BAR ! i) c)))"

definition barResponse :: "'h ports \<Rightarrow> pciDevice \<Rightarrow> nat \<Rightarrow> 'h cfg \<Rightarrow> error + u32" where
  "barResponse P d i c = fst (read P (pciAccessor d) (BAR ! i) (probeWritten P d i c))"

definition probeRestored :: "'h ports \<Rightarrow> pciDevice \<Rightarrow> nat \<Rightarrow> u32 \<Rightarrow> 'h cfg \<Rightarrow> 'h cfg" where
  "probeRestored P d i a c =
     snd (writeField P (pciAccessor d) (BAR ! i) a
            (snd (read P (pciAccessor d) (BAR ! i) (probeWritten P d i c))))"

text \<open>
  On the simulated configuration space: the cache of an accessor agrees with the
  hardware at an offset when it has no dword for it, or the dword of the register.
  Caches start empty, a read stores what the hardware returned and a write deletes
  the entry of the dword it changes.
\<close>

definition coherent :: "sim_hw cfg \<Rightarrow> key \<Rightarrow> nat \<Rightarrow> bool" where
  "coherent c k off =
     (case offsetCache c k off of None \<Rightarrow> True | Some v \<Rightarrow> v = sim_reg (hw c) k off)"

text \<open>
  A routing entry matches a device: \<open>entry.deviceId == device.slot\<close> and
  \<open>entry.pin + 1 == device.pin\<close>.
\<close>

definition routeMatches :: "nat \<Rightarrow> u32 \<Rightarrow> route \<Rightarrow> bool" where
  "routeMatches slotNo devicePin r =
     (route_deviceId r = slotNo \<and> route_pin r + 1 = unat devicePin)"

text \<open>
  An ACPI node that resolution cannot place. Its ancestor chain reaches a root bridge
  when the node or one of its ancestors is a root bridge. Its parent is a resolved PCI
  parent that is no bridge when the parent resolves to a location, the factory gives
  the accessor of that location, and the header type read through it, masked with
  0x7f, is neither 1 nor 2. The node is unresolvable when it is not a device node, or
  it is a device node, no root bridge, and has no parent, or a parent that is not a
  device node, or a parent that is no root bridge and is itself unresolvable or
  resolves to a PCI function that is no bridge. A node whose chain never reaches a
  root bridge is unresolvable.
\<close>

fun reachesRootBridge :: "acpiDevice \<Rightarrow> bool" where
  "reachesRootBridge (AcpiDevice isDev isRoot addr rootBus par routes) =
     (isRoot \<or> (case par of None \<Rightarrow> False | Some p \<Rightarrow> reachesRootBridge p))"

definition parentNotBridge :: "'h ports \<Rightarrow> acpiDevice \<Rightarrow> 'h cfg \<Rightarrow> bool" where
  "parentNotBridge P p c =
     (case locateAcpiDevice P p c of
        (Inr (Some parentLocation), c1) \<Rightarrow>
          (case get (addressHash parentLocation) c1 of
             (Inr pciParent, c2) \<Rightarrow>
               (case read P pciParent HEADER_TYPE c2 of
                  (Inr header, c3) \<Rightarrow> header AND 0x7f \<noteq> 0x01 \<and> header AND 0x7f \<noteq> 0x02
                | (Inl e, c3) \<Rightarrow> False)
           | (Inl e, c2) \<Rightarrow> False)
      | (Inr None, c1) \<Rightarrow> False
      | (Inl e, c1) \<Rightarrow> False)"

fun unresolvable :: "'h ports \<Rightarrow> acpiDevice \<Rightarrow> 'h cfg \<Rightarrow> bool" where
  "unresolvable P (AcpiDevice isDev isRoot addr rootBus par routes) c =
     (if \<not> isDev then True
      else if isRoot then False
      else (case par of
              None \<Rightarrow> True
            | Some p \<Rightarrow>
                if \<not> acpi_isDevice p then True
                else if acpi_isRootBridge p then False
                else if unresolvable P p c then True
                else parentNotBridge P p c))"

text \<open>
  The BAR loop of \<open>listPciDevices\<close> on a device starts in the state left by the calls
  before it: \<open>classData()\<close>, \<open>subsystemData()\<close> and \<open>interruptPin()\<close>. From the state
  \<open>c0\<close> in which the loop starts: the state before probe \<open>i\<close>, and what probe \<open>i\<close>
  returns (null for an absent BAR).
\<close>

definition barLoopStart :: "'h ports \<Rightarrow> pciDevice \<Rightarrow> 'h cfg \<Rightarrow> 'h cfg" where
  "barLoopStart P d c =
     snd (interruptPin P d (snd (subsystemData P d (snd (classData P d c)))))"

fun probeState :: "'h ports \<Rightarrow> pciDevice \<Rightarrow> 'h cfg \<Rightarrow> nat \<Rightarrow> 'h cfg" where
  "probeState P d c0 0 = c0"
| "probeState P d c0 (Suc i) = snd (getBAR P d i (probeState P d c0 i))"

definition probeResult :: "'h ports \<Rightarrow> pciDevice \<Rightarrow> 'h cfg \<Rightarrow> nat \<Rightarrow> bar option" where
  "probeResult P d c0 i =
     (case fst (getBAR P d i (probeState P d c0 i)) of Inl e \<Rightarrow> None | Inr b \<Rightarrow> b)"

text \<open>
  A summary is of a device when it carries the device's address, ids, vector and
  accessor. It summarises the device at the state \<open>c\<close> in which the callback of
  \<open>listPciDevices\<close> reaches the device when, besides, its \<open>bars\<close> has 6 entries, which
  are the data of the six probes run from that state in index order, null exactly at
  the indices whose probe returns null. A result lists a registry from a state when
  it has, in the order of the registry, one summary for each device that is not a
  bridge, each at the state the traversal has reached, and nothing else.
\<close>

definition sameDevice :: "device_summary \<Rightarrow> pciDevice \<Rightarrow> bool" where
  "sameDevice s d =
     (sum_bus s = bus (address d) \<and> sum_slot s = slot (address d) \<and>
      sum_func s = func (address d) \<and> sum_vendorId s = vendorId d \<and>
      sum_deviceId s = deviceId d \<and> sum_irqVector s = irqVector d \<and>
      sum_pciAccessor s = pciAccessor d)"

definition summarisesAt :: "'h ports \<Rightarrow> device_summary \<Rightarrow> pciDevice \<Rightarrow> 'h cfg \<Rightarrow> bool" where
  "summarisesAt P s d c =
     (sameDevice s d \<and> length (sum_bars s) = 6 \<and>
      sum_bars s = map (\<lambda>i. barData (probeResult P d (barLoopStart P d c) i)) [0..<6] \<and>
      list_all (\<lambda>i. (sum_bars s ! i = None) =
                   (fst (getBAR P d i (probeState P d (barLoopStart P d c) i)) = Inr None))
        [0..<6])"

fun listed :: "'h ports \<Rightarrow> pciDevice list \<Rightarrow> 'h cfg \<Rightarrow> device_summary list \<Rightarrow> bool" where
  "listed P [] c results = (results = [])"
| "listed P (d # ds) c results =
     (if isBridge d then listed P ds c results
      else (case results of
              [] \<Rightarrow> False
            | s # rest \<Rightarrow>
                summarisesAt P s d c \<and>
                listed P ds (probeState P d (barLoopStart P d c) 6) rest))"

text \<open>
  On the simulated configuration space: every cache agrees with the hardware, and
  the result of \<open>getBAR\<close> as a function of the BAR's register and of its writable bits.
\<close>

definition allCoherent :: "sim_hw cfg \<Rightarrow> bool" where
  "allCoherent c = (\<forall>k off. coherent c k off)"

definition simBar :: "sim_hw \<Rightarrow> key \<Rightarrow> nat \<Rightarrow> bar option" where
  "simBar h k i =
     (let a = sim_reg h k (offset (BAR ! i));
          w = writable h (config_address (acc_bus k) (acc_slot k) (acc_func k) (offset (BAR ! i)));
          r = (0xffffffff AND w) OR (a AND NOT w)
      in if a = 0 then None else if r = 0 then None else decodeBAR a r)"

section \<open>Example data\<close>

text \<open>
  The device of the end-to-end example: (0,2,0), vendor 0x8086, device 0x100E, header
  0x00, class 0x02, BAR0 0xFE000000 answering the probe with 0xFFF00000. Further
  registers: BAR2 0xC005 (an I/O BAR of four ports at 0xC004), BAR3 0xFD000004 (a
  64-bit memory BAR), BAR5 0xC001 (an I/O BAR of 32 ports at 0xC000), interrupt pin 3,
  and a command/status dword that software may write in full.
\<close>

definition nic :: pciDevice where
  "nic = \<lparr>pciAccessor = (0, 2, 0), address = \<lparr>bus = 0, slot = 2, func = 0\<rparr>,
          vendorId = 0x8086, deviceId = 0x100E, isBridge = False,
          acpiDevice = None, irqVector = None\<rparr>"

definition nic_regs :: "u32 \<Rightarrow> u32" where
  "nic_regs =
     (\<lambda>a. 0xffffffff)
       (0x80001000 := 0x100E8086, 0x80001004 := 0, 0x80001008 := 0x02000000,
        0x8000100c := 0, 0x80001010 := 0xFE000000, 0x80001014 := 0,
        0x80001018 := 0x0000c005, 0x8000101c := 0xFD000004, 0x80001020 := 0,
        0x80001024 := 0xc001, 0x8000102c := 0x11001af4, 0x8000103c := 0x0000030b)"

definition nic_writable :: "u32 \<Rightarrow> u32" where
  "nic_writable =
     (\<lambda>a. 0)
       (0x80001004 := 0xffffffff, 0x80001010 := 0xFFF00000, 0x80001018 := 0xfffffffc,
        0x8000101c := 0xFFFF0000, 0x80001024 := 0xffe0)"

definition nic_hw :: sim_hw where
  "nic_hw = \<lparr>latch = 0, regs = nic_regs, writable = nic_writable\<rparr>"

definition cfg0 :: "sim_hw cfg" where
  "cfg0 = \<lparr>hw = nic_hw, accessorCache = {(0, 2, 0)}, offsetCache = (\<lambda>k. Map.empty)\<rparr>"

definition rootBridge :: acpiDevice where
  "rootBridge = AcpiDevice True True 0 0 None None"

text \<open>A bridge at (0,1,0).\<close>

definition bridgeDev :: pciDevice where
  "bridgeDev = \<lparr>pciAccessor = (0, 1, 0), address = \<lparr>bus = 0, slot = 1, func = 0\<rparr>,
                vendorId = 0x8086, deviceId = 0x244E, isBridge = True,
                acpiDevice = None, irqVector = None\<rparr>"

text \<open>Two routing entries for slot 2, pin C (2), with different vectors.\<close>

definition twoRoutes :: "route list" where
  "twoRoutes = [\<lparr>route_deviceId = 2, route_pin = 2, route_irq = 11\<rparr>,
                \<lparr>route_deviceId = 2, route_pin = 2, route_irq = 10\<rparr>]"





section \<open>Accessor and probe lemmas\<close>

lemma andThen_Inr: "m s = (Inr a, s') \<Longrightarrow> andThen m f s = f a s'"
  by (simp add: andThen_def)

lemma andThen_Inl: "m s = (Inl e, s') \<Longrightarrow> andThen m f s = (Inl e, s')"
  by (simp add: andThen_def)

lemma ones32: "(0xffffffff::u32) = - 1"
  by simp

lemma and_ones32: "(v::u32) AND 0xffffffff = v" "(0xffffffff::u32) AND v = v"
  unfolding ones32 by simp_all

lemma restore_bits: "(v AND m) OR (((x AND m) OR (v AND NOT m)) AND NOT m) = (v::u32)"
  by (rule bit_eqI) (auto simp: bit_simps)

lemma readRaw32_aligned:
  "off mod 4 = 0 \<Longrightarrow>
   readRaw32 P b s f off h =
     (Inr (fst (dataPort_read32 P (setPort P b s f off h))),
      snd (dataPort_read32 P (setPort P b s f off h)))"
  by (simp add: readRaw32_def split: prod.splits)

lemma read_cached:
  "offsetCache c k (offset fld) = Some v \<Longrightarrow> read P k fld c = (Inr (dwToFieldValue v fld), c)"
  by (simp add: read_def)

lemma read_uncached:
  "offsetCache c k (offset fld) = None \<Longrightarrow> offset fld mod 4 = 0 \<Longrightarrow>
   read P k fld c =
     (Inr (dwToFieldValue (fst (rawRead P k (offset fld) (hw c))) fld),
      c\<lparr>hw := snd (rawRead P k (offset fld) (hw c)),
        offsetCache := (offsetCache c)(k := (offsetCache c k)(offset fld \<mapsto>
                          fst (rawRead P k (offset fld) (hw c))))\<rparr>)"
  by (simp add: read_def readRaw32_aligned rawRead_def)

lemma read_ok:
  "offset fld mod 4 = 0 \<Longrightarrow> \<exists>v c'. read P k fld c = (Inr v, c')"
  by (cases "offsetCache c k (offset fld)") (simp_all add: read_cached read_uncached)

lemma writeField32:
  "mask_field fld = 0xffffffff \<Longrightarrow> offset fld mod 4 = 0 \<Longrightarrow>
   writeField P k fld v c =
     (Inr (), c\<lparr>hw := dataPort_write32 P v
                      (setPort P (acc_bus k) (acc_slot k) (acc_func k) (offset fld) (hw c)),
               offsetCache := (offsetCache c)(k := (offsetCache c k)(offset fld := None))\<rparr>)"
  by (simp add: writeField_def writeRaw32_def Let_def)

lemma writeField_evicts:
  "offsetCache (snd (writeField P k fld v c)) k (offset fld) = None"
  by (simp add: writeField_def writeRaw32_def writeRaw16_def writeRaw8_def Let_def
      split: prod.splits)

lemma BAR_nth:
  "i \<le> 5 \<Longrightarrow>
   mask_field (BAR ! i) = 0xffffffff \<and> offset (BAR ! i) mod 4 = 0 \<and>
   shift (BAR ! i) = 0 \<and> offset (BAR ! i) = 16 + 4 * i"
proof -
  assume "i \<le> 5"
  then have "i = 0 \<or> i = 1 \<or> i = 2 \<or> i = 3 \<or> i = 4 \<or> i = 5" by arith
  then show ?thesis by (auto simp: BAR_def)
qed

lemma uint32_small: "i \<le> 5 \<Longrightarrow> uint32 i = i"
  by (simp add: uint32_def)

lemma dwToFieldValue_BAR: "i \<le> 5 \<Longrightarrow> dwToFieldValue v (BAR ! i) = v"
  using BAR_nth [of i] by (simp add: dwToFieldValue_def and_ones32)

lemma barValue_ok: "i \<le> 5 \<Longrightarrow> \<exists>a. barValue P d i c = Inr a"
  using read_ok [of "BAR ! i" P "pciAccessor d" c] BAR_nth [of i]
  by (auto simp: barValue_def)

lemma barResponse_ok: "i \<le> 5 \<Longrightarrow> \<exists>r. barResponse P d i c = Inr r"
  using read_ok [of "BAR ! i" P "pciAccessor d" "probeWritten P d i c"] BAR_nth [of i]
  by (auto simp: barResponse_def)

text \<open>A BAR that reads 0: \<open>getBAR\<close> returns null after the first read.\<close>

lemma getBAR_zero:
  assumes "\<not> isBridge d" and "i \<le> 5" and "barValue P d i c = Inr 0"
  shows "getBAR P d i c = (Inr None, snd (read P (pciAccessor d) (BAR ! i) c))"
proof -
  have al: "offset (BAR ! i) mod 4 = 0"
    using BAR_nth [OF assms(2)] by simp
  obtain v c1 where r1: "read P (pciAccessor d) (BAR ! i) c = (Inr v, c1)"
    using read_ok [OF al] by blast
  with assms(3) have "v = 0" by (simp add: barValue_def)
  with r1 assms(1,2) show ?thesis
    by (simp add: getBAR_def uint32_small Let_def andThen_Inr)
qed

text \<open>
  A BAR that reads \<open>a \<noteq> 0\<close>: the four accessor calls of the probe run, none throws,
  and the result is decoded from \<open>a\<close> and the response.
\<close>

lemma getBAR_probed:
  assumes "\<not> isBridge d" and "i \<le> 5"
    and "barValue P d i c = Inr a" and "a \<noteq> 0"
    and "barResponse P d i c = Inr r"
  shows "getBAR P d i c =
           (Inr (if r = 0 then None else decodeBAR a r), probeRestored P d i a c)"
proof -
  let ?k = "pciAccessor d" and ?f = "BAR ! i"
  have f: "mask_field ?f = 0xffffffff" "offset ?f mod 4 = 0"
    using BAR_nth [OF assms(2)] by simp_all
  obtain v c1 where r1: "read P ?k ?f c = (Inr v, c1)"
    using read_ok [OF f(2)] by blast
  with assms(3) have v: "v = a" by (simp add: barValue_def)
  obtain c2 where w1: "writeField P ?k ?f 0xffffffff c1 = (Inr (), c2)"
    using writeField32 [OF f] by blast
  obtain x c3 where r2: "read P ?k ?f c2 = (Inr x, c3)"
    using read_ok [OF f(2)] by blast
  have pw: "probeWritten P d i c = c2"
    by (simp add: probeWritten_def r1 w1)
  with assms(5) r2 have x: "x = r" by (simp add: barResponse_def)
  obtain c4 where w2: "writeField P ?k ?f a c3 = (Inr (), c4)"
    using writeField32 [OF f] by blast
  have pr: "probeRestored P d i a c = c4"
    by (simp add: probeRestored_def pw r2 w2)
  show ?thesis
    using assms(1,2,4) r1 w1 r2 w2 v x pr
    by (simp add: getBAR_def uint32_small Let_def andThen_Inr)
qed

lemma getBAR_ok:
  assumes "\<not> isBridge d" and "i \<le> 5"
  shows "\<exists>b c'. getBAR P d i c = (Inr b, c')"
proof -
  obtain a where a: "barValue P d i c = Inr a" using barValue_ok [OF assms(2)] by blast
  obtain r where r: "barResponse P d i c = Inr r" using barResponse_ok [OF assms(2)] by blast
  show ?thesis
  proof (cases "a = 0")
    case True
    with a have "barValue P d i c = Inr 0" by simp
    from getBAR_zero [OF assms this] show ?thesis by simp
  next
    case False
    with getBAR_probed [OF assms a False r] show ?thesis by simp
  qed
qed


subsection \<open>The simulated configuration space\<close>

lemma rawRead_sim:
  "rawRead simPorts k off h =
     (sim_reg h k off, h\<lparr>latch := config_address (acc_bus k) (acc_slot k) (acc_func k) off\<rparr>)"
  by (simp add: rawRead_def simPorts_def setPort_def sim_reg_def)

lemma writeField32_sim:
  "mask_field fld = 0xffffffff \<Longrightarrow> offset fld mod 4 = 0 \<Longrightarrow>
   writeField simPorts k fld v c =
     (Inr (), c\<lparr>hw := sim_store 0xffffffff v
                      ((hw c)\<lparr>latch := config_address (acc_bus k) (acc_slot k) (acc_func k) (offset fld)\<rparr>),
               offsetCache := (offsetCache c)(k := (offsetCache c k)(offset fld := None))\<rparr>)"
  by (simp add: writeField32 simPorts_def setPort_def)

lemma read_sim_coherent:
  assumes "coherent c k (offset fld)" and "offset fld mod 4 = 0"
  shows "fst (read simPorts k fld c) = Inr (dwToFieldValue (sim_reg (hw c) k (offset fld)) fld) \<and>
         regs (hw (snd (read simPorts k fld c))) = regs (hw c) \<and>
         writable (hw (snd (read simPorts k fld c))) = writable (hw c)"
proof (cases "offsetCache c k (offset fld)")
  case None
  then show ?thesis using assms(2) by (simp add: read_uncached rawRead_sim)
next
  case (Some v)
  with assms(1) have "v = sim_reg (hw c) k (offset fld)" by (simp add: coherent_def)
  with Some show ?thesis by (simp add: read_cached)
qed

lemma writeField32_sim_hw:
  assumes "mask_field fld = 0xffffffff" and "offset fld mod 4 = 0"
  shows "regs (hw (snd (writeField simPorts k fld v c))) =
           (regs (hw c))(config_address (acc_bus k) (acc_slot k) (acc_func k) (offset fld) :=
              (v AND writable (hw c) (config_address (acc_bus k) (acc_slot k) (acc_func k) (offset fld))) OR
              (sim_reg (hw c) k (offset fld) AND
                 NOT (writable (hw c) (config_address (acc_bus k) (acc_slot k) (acc_func k) (offset fld)))))"
    and "writable (hw (snd (writeField simPorts k fld v c))) = writable (hw c)"
  by (simp_all add: writeField32_sim [OF assms] sim_store_def sim_reg_def and_ones32)

text \<open>
  The agreement of cache and hardware is kept by the accessor: a write establishes it
  at the offset of its field, a read of an aligned field keeps it at every offset,
  and a write keeps it at every offset that selects another dword.
\<close>

lemma coherent_after_write: "coherent (snd (writeField simPorts k fld v c)) k (offset fld)"
  by (simp add: coherent_def writeField_evicts)

lemma coherent_read:
  assumes "offset fld mod 4 = 0" and "coherent c k off"
  shows "coherent (snd (read simPorts k fld c)) k off"
proof (cases "offsetCache c k (offset fld)")
  case (Some v)
  with assms(2) show ?thesis by (simp add: read_cached)
next
  case None
  with assms show ?thesis
    by (auto simp: read_uncached rawRead_sim coherent_def sim_reg_def split: option.splits)
qed

lemma sim_store_other:
  "a \<noteq> latch h \<Longrightarrow> regs (sim_store lanes v h) a = regs h a"
  by (simp add: sim_store_def)

lemma coherent_write:
  assumes "coherent c k off"
    and "off = offset fld \<or>
         (config_address (acc_bus k) (acc_slot k) (acc_func k) off \<noteq>
            config_address (acc_bus k) (acc_slot k) (acc_func k) (offset fld) \<and>
          config_address (acc_bus k) (acc_slot k) (acc_func k) off \<noteq>
            config_address (acc_bus k) (acc_slot k) (acc_func k) (offset fld + shift fld))"
  shows "coherent (snd (writeField simPorts k fld v c)) k off"
proof (cases "off = offset fld")
  case True
  then show ?thesis by (simp add: coherent_after_write)
next
  case False
  with assms show ?thesis
    by (auto simp: writeField_def writeRaw32_def writeRaw16_def writeRaw8_def Let_def
        simPorts_def setPort_def coherent_def sim_reg_def sim_store_other
        split: option.splits)
qed

lemma probe_sim:
  assumes "i \<le> 5" and "coherent c (pciAccessor d) (offset (BAR ! i))"
  shows "regs (hw (probeRestored simPorts d i (sim_reg (hw c) (pciAccessor d) (offset (BAR ! i))) c)) = regs (hw c)"
    and "offsetCache (probeRestored simPorts d i a c) (pciAccessor d) (offset (BAR ! i)) = None"
proof -
  let ?k = "pciAccessor d" and ?f = "BAR ! i"
  let ?A = "config_address (acc_bus ?k) (acc_slot ?k) (acc_func ?k) (offset ?f)"
  let ?c1 = "snd (read simPorts ?k ?f c)"
  let ?c2 = "probeWritten simPorts d i c"
  let ?c3 = "snd (read simPorts ?k ?f ?c2)"
  have f: "mask_field ?f = 0xffffffff" "offset ?f mod 4 = 0"
    using BAR_nth [OF assms(1)] by simp_all
  have c1: "regs (hw ?c1) = regs (hw c)" "writable (hw ?c1) = writable (hw c)"
    using read_sim_coherent [OF assms(2) f(2)] by simp_all
  have c2: "regs (hw ?c2) = (regs (hw c))(?A :=
              (0xffffffff AND writable (hw c) ?A) OR (regs (hw c) ?A AND NOT (writable (hw c) ?A)))"
      "writable (hw ?c2) = writable (hw c)"
    unfolding probeWritten_def
    by (simp_all add: writeField32_sim_hw [OF f] c1 sim_reg_def)
  have "coherent ?c2 ?k (offset ?f)"
    unfolding probeWritten_def by (rule coherent_after_write)
  then have c3: "regs (hw ?c3) = regs (hw ?c2)" "writable (hw ?c3) = writable (hw ?c2)"
    using read_sim_coherent [OF _ f(2)] by simp_all
  show "offsetCache (probeRestored simPorts d i a c) ?k (offset ?f) = None"
    by (simp add: probeRestored_def writeField_evicts)
  show "regs (hw (probeRestored simPorts d i (sim_reg (hw c) ?k (offset ?f)) c)) = regs (hw c)"
    unfolding probeRestored_def
    by (simp add: writeField32_sim_hw [OF f] c3 c2 sim_reg_def restore_bits)
qed

lemma barValue_sim:
  assumes "i \<le> 5" and "coherent c (pciAccessor d) (offset (BAR ! i))"
  shows "barValue simPorts d i c = Inr (sim_reg (hw c) (pciAccessor d) (offset (BAR ! i)))"
proof -
  have f: "offset (BAR ! i) mod 4 = 0"
    using BAR_nth [OF assms(1)] by simp
  show ?thesis
    using read_sim_coherent [OF assms(2) f]
    by (simp add: barValue_def dwToFieldValue_BAR [OF assms(1)])
qed

lemma barResponse_sim:
  assumes "i \<le> 5" and "coherent c (pciAccessor d) (offset (BAR ! i))"
  shows "barResponse simPorts d i c =
           Inr ((0xffffffff AND
                   writable (hw c) (config_address (acc_bus (pciAccessor d)) (acc_slot (pciAccessor d))
                      (acc_func (pciAccessor d)) (offset (BAR ! i)))) OR
                (sim_reg (hw c) (pciAccessor d) (offset (BAR ! i)) AND
                   NOT (writable (hw c) (config_address (acc_bus (pciAccessor d)) (acc_slot (pciAccessor d))
                      (acc_func (pciAccessor d)) (offset (BAR ! i))))))"
proof -
  let ?k = "pciAccessor d" and ?f = "BAR ! i"
  let ?A = "config_address (acc_bus ?k) (acc_slot ?k) (acc_func ?k) (offset ?f)"
  let ?c2 = "probeWritten simPorts d i c"
  have f: "mask_field ?f = 0xffffffff" "offset ?f mod 4 = 0"
    using BAR_nth [OF assms(1)] by simp_all
  have c1: "regs (hw (snd (read simPorts ?k ?f c))) = regs (hw c)"
      "writable (hw (snd (read simPorts ?k ?f c))) = writable (hw c)"
    using read_sim_coherent [OF assms(2) f(2)] by simp_all
  have c2: "sim_reg (hw ?c2) ?k (offset ?f) =
              (0xffffffff AND writable (hw c) ?A) OR
              (sim_reg (hw c) ?k (offset ?f) AND NOT (writable (hw c) ?A))"
    unfolding probeWritten_def
    by (simp add: writeField32_sim_hw [OF f] c1 sim_reg_def)
  have "coherent ?c2 ?k (offset ?f)"
    unfolding probeWritten_def by (rule coherent_after_write)
  from read_sim_coherent [OF this f(2)] show ?thesis
    by (simp add: barResponse_def dwToFieldValue_BAR [OF assms(1)] c2)
qed

text \<open>
  The frame of a read and of a whole probe on the simulated configuration space: no
  register and no writable mask changes, every cache still agrees with the hardware,
  and \<open>getBAR\<close> returns what the register and its writable bits determine.
\<close>

lemma allCoherentD: "allCoherent c \<Longrightarrow> coherent c k off"
  unfolding allCoherent_def by blast

lemma allCoherentI: "(\<And>k off. coherent c k off) \<Longrightarrow> allCoherent c"
  unfolding allCoherent_def by blast

lemma read_cache_shape:
  assumes "offset fld mod 4 = 0"
  shows "\<exists>x. offsetCache (snd (read P k fld c)) =
              (offsetCache c)(k := (offsetCache c k)(offset fld := x))"
proof (cases "offsetCache c k (offset fld)")
  case None
  with assms show ?thesis by (auto simp: read_uncached)
next
  case (Some v)
  then have "(offsetCache c)(k := (offsetCache c k)(offset fld := Some v)) = offsetCache c"
    by (auto simp: fun_eq_iff)
  with Some show ?thesis by (auto simp: read_cached intro!: exI [of _ "Some v"])
qed

lemma probe_cache:
  assumes "i \<le> 5"
  shows "offsetCache (probeRestored P d i a c) =
           (offsetCache c)(pciAccessor d := (offsetCache c (pciAccessor d))(offset (BAR ! i) := None))"
proof -
  let ?k = "pciAccessor d" and ?f = "BAR ! i"
  have f: "mask_field ?f = 0xffffffff" "offset ?f mod 4 = 0"
    using BAR_nth [OF assms] by simp_all
  obtain x where c1: "offsetCache (snd (read P ?k ?f c)) =
      (offsetCache c)(?k := (offsetCache c ?k)(offset ?f := x))"
    using read_cache_shape [OF f(2)] by blast
  have c2: "offsetCache (probeWritten P d i c) =
      (offsetCache c)(?k := (offsetCache c ?k)(offset ?f := None))"
    by (simp add: probeWritten_def writeField32 [OF f] c1)
  obtain y where c3: "offsetCache (snd (read P ?k ?f (probeWritten P d i c))) =
      (offsetCache (probeWritten P d i c))(?k := (offsetCache (probeWritten P d i c) ?k)(offset ?f := y))"
    using read_cache_shape [OF f(2)] by blast
  show ?thesis
    by (simp add: probeRestored_def writeField32 [OF f] c3 c2)
qed

lemma read_sim_frame:
  assumes "offset fld mod 4 = 0" and "allCoherent c"
  shows "regs (hw (snd (read simPorts k fld c))) = regs (hw c)"
    and "writable (hw (snd (read simPorts k fld c))) = writable (hw c)"
    and "allCoherent (snd (read simPorts k fld c))"
proof -
  have ck: "coherent c k (offset fld)" using assms(2) by (rule allCoherentD)
  show r: "regs (hw (snd (read simPorts k fld c))) = regs (hw c)"
    and "writable (hw (snd (read simPorts k fld c))) = writable (hw c)"
    using read_sim_coherent [OF ck assms(1)] by simp_all
  show "allCoherent (snd (read simPorts k fld c))"
  proof (cases "offsetCache c k (offset fld)")
    case (Some v)
    with assms(2) show ?thesis by (simp add: read_cached)
  next
    case None
    show ?thesis
    proof (rule allCoherentI)
      fix k' off
      have "coherent c k' off" using assms(2) by (rule allCoherentD)
      with None assms(1) show "coherent (snd (read simPorts k fld c)) k' off"
        by (auto simp: read_uncached rawRead_sim coherent_def sim_reg_def split: option.splits)
    qed
  qed
qed

lemma probe_sim_writable:
  assumes "i \<le> 5" and "coherent c (pciAccessor d) (offset (BAR ! i))"
  shows "writable (hw (probeRestored simPorts d i a c)) = writable (hw c)"
proof -
  let ?k = "pciAccessor d" and ?f = "BAR ! i"
  have f: "mask_field ?f = 0xffffffff" "offset ?f mod 4 = 0"
    using BAR_nth [OF assms(1)] by simp_all
  have c1: "writable (hw (snd (read simPorts ?k ?f c))) = writable (hw c)"
    using read_sim_coherent [OF assms(2) f(2)] by simp
  have c2: "writable (hw (probeWritten simPorts d i c)) = writable (hw c)"
    unfolding probeWritten_def by (simp add: writeField32_sim_hw [OF f] c1)
  have "coherent (probeWritten simPorts d i c) ?k (offset ?f)"
    unfolding probeWritten_def by (rule coherent_after_write)
  then have c3: "writable (hw (snd (read simPorts ?k ?f (probeWritten simPorts d i c)))) =
                   writable (hw (probeWritten simPorts d i c))"
    using read_sim_coherent [OF _ f(2)] by simp
  show ?thesis
    unfolding probeRestored_def by (simp add: writeField32_sim_hw [OF f] c3 c2)
qed

lemma getBAR_sim_frame:
  assumes "\<not> isBridge d" and "i \<le> 5" and "allCoherent c"
  shows "fst (getBAR simPorts d i c) = Inr (simBar (hw c) (pciAccessor d) i)"
    and "regs (hw (snd (getBAR simPorts d i c))) = regs (hw c)"
    and "writable (hw (snd (getBAR simPorts d i c))) = writable (hw c)"
    and "allCoherent (snd (getBAR simPorts d i c))"
proof -
  let ?k = "pciAccessor d" and ?f = "BAR ! i"
  let ?a = "sim_reg (hw c) ?k (offset ?f)"
  let ?w = "writable (hw c) (config_address (acc_bus ?k) (acc_slot ?k) (acc_func ?k) (offset ?f))"
  have f: "offset ?f mod 4 = 0" using BAR_nth [OF assms(2)] by simp
  have ck: "coherent c ?k (offset ?f)" using assms(3) by (rule allCoherentD)
  have bv: "barValue simPorts d i c = Inr ?a" by (rule barValue_sim [OF assms(2) ck])
  have br: "barResponse simPorts d i c = Inr ((0xffffffff AND ?w) OR (?a AND NOT ?w))"
    by (rule barResponse_sim [OF assms(2) ck])
  have "fst (getBAR simPorts d i c) = Inr (simBar (hw c) ?k i) \<and>
        regs (hw (snd (getBAR simPorts d i c))) = regs (hw c) \<and>
        writable (hw (snd (getBAR simPorts d i c))) = writable (hw c) \<and>
        allCoherent (snd (getBAR simPorts d i c))"
  proof (cases "?a = 0")
    case True
    with bv have z: "barValue simPorts d i c = Inr 0" by simp
    show ?thesis
      using getBAR_zero [OF assms(1,2) z] read_sim_frame [OF f assms(3), of ?k] True
      by (simp add: simBar_def Let_def)
  next
    case False
    have g: "getBAR simPorts d i c =
        (Inr (if (0xffffffff AND ?w) OR (?a AND NOT ?w) = 0 then None
              else decodeBAR ?a ((0xffffffff AND ?w) OR (?a AND NOT ?w))),
         probeRestored simPorts d i ?a c)"
      by (rule getBAR_probed [OF assms(1,2) bv False br])
    have rg: "regs (hw (probeRestored simPorts d i ?a c)) = regs (hw c)"
      by (rule probe_sim(1) [OF assms(2) ck])
    have wr: "writable (hw (probeRestored simPorts d i ?a c)) = writable (hw c)"
      by (rule probe_sim_writable [OF assms(2) ck])
    have co: "allCoherent (probeRestored simPorts d i ?a c)"
    proof (rule allCoherentI)
      fix k' off
      define c' where "c' = probeRestored simPorts d i ?a c"
      have r': "regs (hw c') = regs (hw c)"
        unfolding c'_def by (rule rg)
      have o': "offsetCache c' =
                  (offsetCache c)(?k := (offsetCache c ?k)(offset ?f := None))"
        unfolding c'_def by (rule probe_cache [OF assms(2)])
      have "coherent c k' off" using assms(3) by (rule allCoherentD)
      then have "coherent c' k' off"
        by (auto simp: coherent_def sim_reg_def r' o' split: option.splits)
      then show "coherent (probeRestored simPorts d i ?a c) k' off"
        unfolding c'_def .
    qed
    show ?thesis
      using False by (simp add: g rg wr co simBar_def Let_def)
  qed
  then show "fst (getBAR simPorts d i c) = Inr (simBar (hw c) (pciAccessor d) i)"
    and "regs (hw (snd (getBAR simPorts d i c))) = regs (hw c)"
    and "writable (hw (snd (getBAR simPorts d i c))) = writable (hw c)"
    and "allCoherent (snd (getBAR simPorts d i c))"
    by simp_all
qed

lemma probeState_sim:
  assumes "\<not> isBridge d" and "allCoherent c0"
  shows "i \<le> 6 \<Longrightarrow>
         regs (hw (probeState simPorts d c0 i)) = regs (hw c0) \<and>
         writable (hw (probeState simPorts d c0 i)) = writable (hw c0) \<and>
         allCoherent (probeState simPorts d c0 i)"
proof (induction i)
  case 0
  show ?case using assms(2) by simp
next
  case (Suc i)
  then have i: "i \<le> 5" and ih: "regs (hw (probeState simPorts d c0 i)) = regs (hw c0)"
      "writable (hw (probeState simPorts d c0 i)) = writable (hw c0)"
      "allCoherent (probeState simPorts d c0 i)"
    by simp_all
  show ?case
    using getBAR_sim_frame(2,3,4) [OF assms(1) i ih(3)] ih(1,2) by simp
qed

lemma probeResult_sim:
  assumes "\<not> isBridge d" and "allCoherent c0" and "i \<le> 5"
  shows "probeResult simPorts d c0 i =
           simBar \<lparr>latch = 0, regs = regs (hw c0), writable = writable (hw c0)\<rparr> (pciAccessor d) i"
proof -
  have i6: "i \<le> 6" using assms(3) by simp
  note ps = probeState_sim [OF assms(1,2) i6]
  from ps have co: "allCoherent (probeState simPorts d c0 i)" by simp
  show ?thesis
    using getBAR_sim_frame(1) [OF assms(1,3) co] ps
    by (simp add: probeResult_def simBar_def sim_reg_def)
qed

subsection \<open>The example device\<close>

lemma nic_fields [simp]:
  "pciAccessor nic = (0, 2, 0)" "isBridge nic = False" "irqVector nic = None"
  "address nic = \<lparr>bus = 0, slot = 2, func = 0\<rparr>"
  by (simp_all add: nic_def)

lemma nic_config_address:
  "config_address (acc_bus (0, 2, 0)) (acc_slot (0, 2, 0)) (acc_func (0, 2, 0)) off =
     0x1000 OR (of_nat off AND 0xfc) OR 0x80000000"
  by (simp add: config_address_def acc_bus_def acc_slot_def acc_func_def uint32_def)

lemma cfg0_coherent: "coherent cfg0 k off"
  by (simp add: coherent_def cfg0_def)

lemma cfg0_hw [simp]: "regs (hw cfg0) = nic_regs" "writable (hw cfg0) = nic_writable"
  by (simp_all add: cfg0_def nic_hw_def)

lemma ex_bar2:
  "barValue simPorts nic 2 cfg0 = Inr 0xc005"
  "barResponse simPorts nic 2 cfg0 = Inr 0xfffffffd"
  by (simp_all add: barValue_sim barResponse_sim cfg0_coherent sim_reg_def BAR_def
      nic_config_address nic_regs_def nic_writable_def)

lemma ex_bar3:
  "barValue simPorts nic 3 cfg0 = Inr 0xFD000004"
  "barResponse simPorts nic 3 cfg0 = Inr 0xFFFF0004"
  by (simp_all add: barValue_sim barResponse_sim cfg0_coherent sim_reg_def BAR_def
      nic_config_address nic_regs_def nic_writable_def)

lemma ex_bar5:
  "barValue simPorts nic 5 cfg0 = Inr 0xc001"
  "barResponse simPorts nic 5 cfg0 = Inr 0xffe1"
  by (simp_all add: barValue_sim barResponse_sim cfg0_coherent sim_reg_def BAR_def
      nic_config_address nic_regs_def nic_writable_def)

section \<open>Verified properties\<close>

subsection \<open>getBAR\<close>




text \<open>
  The I/O branch. For a device that is not a bridge and an index in [0,5]
  with nonzero raw BAR value \<open>a\<close> and nonzero probe response \<open>r\<close>, if bit 0 of \<open>a\<close> is
  set and bit 2 is clear, \<open>getBAR\<close> computes the I/O base \<open>(a & ~0x3) & 0xffff\<close> and
  size \<open>(~(r & ~0x3) + 1) & 0xffff\<close>; it returns null when either is 0, and otherwise
  the object of type 'io' with that base and size and the port range from base to
  base + size - 1.
\<close>

theorem getBAR_io:
  assumes "\<not> isBridge d" and "i \<le> 5"
    and "barValue P d i c = Inr a" and "a \<noteq> 0"
    and "barResponse P d i c = Inr r" and "r \<noteq> 0"
    and "a AND BAR_IO \<noteq> 0" and "a AND BAR_64 = 0"
  shows "fst (getBAR P d i c) =
           Inr (let base = (a AND NOT 0x3) AND 0xffff;
                    sz = (NOT (r AND NOT 0x3) + 1) AND 0xffff
                in if sz = 0 \<or> base = 0 then None
                   else Some \<lparr>bar_type = ''io'', bar_base = base, bar_size = sz,
                          bar_resource = IoSubrange (unat base) (unat base + unat sz - 1)\<rparr>)"
  using getBAR_probed [OF assms(1,2,3,4,5)] assms(6,7,8)
  by (auto simp: decodeBAR_def barReturn_def Let_def)

theorem getBAR_io_witness:
  "\<not> isBridge nic \<and> barValue simPorts nic 5 cfg0 = Inr 0xc001 \<and>
   barResponse simPorts nic 5 cfg0 = Inr 0xffe1 \<and>
   (0xc001 :: u32) AND BAR_IO \<noteq> 0 \<and> (0xc001 :: u32) AND BAR_64 = 0 \<and>
   fst (getBAR simPorts nic 5 cfg0) =
     Inr (Some \<lparr>bar_type = ''io'', bar_base = 0xc000, bar_size = 0x20,
                 bar_resource = IoSubrange 0xc000 0xc01f\<rparr>)"
proof -
  have h1: "\<not> isBridge nic" by simp
  have h2: "(5::nat) \<le> 5" by simp
  have h4: "(0xc001 :: u32) \<noteq> 0" by simp
  have h6: "(0xffe1 :: u32) \<noteq> 0" by simp
  have h7: "(0xc001 :: u32) AND BAR_IO \<noteq> 0" by (simp add: BAR_IO_def)
  have h8: "(0xc001 :: u32) AND BAR_64 = 0" by (simp add: BAR_64_def)
  from getBAR_io [OF h1 h2 ex_bar5(1) h4 ex_bar5(2) h6 h7 h8] h1 h7 h8 ex_bar5
  show ?thesis by simp
qed

text \<open>
  C3 at a failing input. BAR2 of the example device is an I/O BAR of four ports at
  0xC004: it reads 0xC005 (bit 0 set; bit 2 is part of the port address, which the
  I/O branch keeps with \<open>& ~0x3\<close>) and answers the probe with 0xFFFFFFFD. The I/O
  formulas give base 0xC004 and size 4, but \<open>getBAR(2)\<close> tests bit 2 first, takes the
  64-bit branch and returns null.
\<close>

theorem getBAR_io_bit2_null:
  "\<not> isBridge nic \<and> barValue simPorts nic 2 cfg0 = Inr 0xc005 \<and>
   (0xc005 :: u32) AND BAR_IO \<noteq> 0 \<and>
   barResponse simPorts nic 2 cfg0 = Inr 0xfffffffd \<and>
   ((0xc005 :: u32) AND NOT 0x3) AND 0xffff = 0xc004 \<and>
   (NOT ((0xfffffffd :: u32) AND NOT 0x3) + 1) AND 0xffff = 4 \<and>
   fst (getBAR simPorts nic 2 cfg0) = Inr None"
proof -
  have "getBAR simPorts nic 2 cfg0 =
          (Inr (if (0xfffffffd::u32) = 0 then None else decodeBAR 0xc005 0xfffffffd),
           probeRestored simPorts nic 2 0xc005 cfg0)"
    by (rule getBAR_probed) (simp_all add: ex_bar2)
  then show ?thesis
    by (simp add: ex_bar2 decodeBAR_def BAR_64_def BAR_IO_def barReturn_def)
qed

text \<open>
  C4. On the simulated configuration space, for a device that is not a bridge, an
  index in [0,5] and an accessor cache that agrees with the hardware at the BAR's
  offset: when the raw BAR value \<open>a\<close> is nonzero, \<open>a\<close> is the value of the register,
  the state after \<open>getBAR\<close> is the state after the probe sequence (read, write of
  all-ones, read of the response, write of \<open>a\<close>), the register holds \<open>a\<close> again, no
  register of the configuration space has changed, and the cache holds no dword for
  the BAR, so the next read of it goes to the hardware.
\<close>

theorem getBAR_nondestructive:
  assumes "\<not> isBridge d" and "i \<le> 5"
    and "coherent c (pciAccessor d) (offset (BAR ! i))"
    and "barValue simPorts d i c = Inr a" and "a \<noteq> 0"
  shows "a = sim_reg (hw c) (pciAccessor d) (offset (BAR ! i)) \<and>
         snd (getBAR simPorts d i c) = probeRestored simPorts d i a c \<and>
         sim_reg (hw (snd (getBAR simPorts d i c))) (pciAccessor d) (offset (BAR ! i)) = a \<and>
         regs (hw (snd (getBAR simPorts d i c))) = regs (hw c) \<and>
         offsetCache (snd (getBAR simPorts d i c)) (pciAccessor d) (offset (BAR ! i)) = None"
proof -
  have f: "offset (BAR ! i) mod 4 = 0"
    using BAR_nth [OF assms(2)] by simp
  have a: "a = sim_reg (hw c) (pciAccessor d) (offset (BAR ! i))"
    using read_sim_coherent [OF assms(3) f] assms(4)
    by (simp add: barValue_def dwToFieldValue_BAR [OF assms(2)])
  obtain r where r: "barResponse simPorts d i c = Inr r"
    using barResponse_ok [OF assms(2)] by blast
  have g: "snd (getBAR simPorts d i c) = probeRestored simPorts d i a c"
    using getBAR_probed [OF assms(1,2,4,5) r] by simp
  show ?thesis
    using a g probe_sim(1) [OF assms(2,3)] probe_sim(2) [OF assms(2,3), of a]
    by (simp add: sim_reg_def)
qed

theorem getBAR_nondestructive_witness:
  "\<not> isBridge nic \<and> coherent cfg0 (pciAccessor nic) (offset (BAR ! 3)) \<and>
   barValue simPorts nic 3 cfg0 = Inr 0xFD000004 \<and>
   sim_reg (hw (snd (getBAR simPorts nic 3 cfg0))) (pciAccessor nic) (offset (BAR ! 3)) = 0xFD000004 \<and>
   regs (hw (snd (getBAR simPorts nic 3 cfg0))) = regs (hw cfg0)"
proof -
  have h1: "\<not> isBridge nic" by simp
  have h2: "(3::nat) \<le> 5" by simp
  have h5: "(0xFD000004 :: u32) \<noteq> 0" by simp
  from getBAR_nondestructive [OF h1 h2 cfg0_coherent ex_bar3(1) h5] h1 cfg0_coherent ex_bar3(1)
  show ?thesis by blast
qed

subsection \<open>The assign-once fields\<close>

text \<open>
  C5. After a call of \<open>setIRQVector\<close> that succeeded on a device, a second call throws
  'IRQ vector already set' (AlreadyAssigned) and leaves the device as it was:
  \<open>getIRQVector\<close> returns the first vector (as \<open>vector >>> 0\<close>) before and after it.
\<close>

theorem setIRQVector_twice:
  assumes "setIRQVector v1 d = (Inr (), d1)"
  shows "setIRQVector v2 d1 = (Inl AlreadyAssigned, d1) \<and>
         getIRQVector d1 = Some (of_nat v1) \<and>
         getIRQVector (snd (setIRQVector v2 d1)) = Some (of_nat v1)"
  using assms by (auto simp: setIRQVector_def getIRQVector_def split: if_splits)

theorem setIRQVector_twice_witness:
  "setIRQVector 11 nic = (Inr (), nic\<lparr>irqVector := Some 11\<rparr>) \<and>
   setIRQVector 5 (nic\<lparr>irqVector := Some 11\<rparr>) =
     (Inl AlreadyAssigned, nic\<lparr>irqVector := Some 11\<rparr>) \<and>
   getIRQVector (nic\<lparr>irqVector := Some 11\<rparr>) = Some 11"
proof -
  have h: "setIRQVector 11 nic = (Inr (), nic\<lparr>irqVector := Some 11\<rparr>)"
    by (simp add: setIRQVector_def nic_def)
  from setIRQVector_twice [OF h, of 5] h show ?thesis by simp
qed

text \<open>
  C10. On a device that has an ACPI handle attached, \<open>attachAcpiDevice\<close> returns
  normally, with no error, and leaves the device, and so the handle, as it was;
  \<open>setIRQVector\<close> on a device with a vector throws AlreadyAssigned instead.
\<close>

theorem attachAcpiDevice_twice:
  assumes "acpiDevice d = Some a0"
  shows "attachAcpiDevice a d = (Inr (), d) \<and>
         acpiDevice (snd (attachAcpiDevice a d)) = Some a0 \<and>
         (irqVector d \<noteq> None \<longrightarrow> setIRQVector v d = (Inl AlreadyAssigned, d))"
  using assms by (simp add: attachAcpiDevice_def setIRQVector_def)

theorem attachAcpiDevice_twice_witness:
  "attachAcpiDevice (AcpiDevice True False 0x20000 0 (Some rootBridge) None)
     (nic\<lparr>acpiDevice := Some rootBridge, irqVector := Some 11\<rparr>) =
     (Inr (), nic\<lparr>acpiDevice := Some rootBridge, irqVector := Some 11\<rparr>) \<and>
   setIRQVector 5 (nic\<lparr>acpiDevice := Some rootBridge, irqVector := Some 11\<rparr>) =
     (Inl AlreadyAssigned, nic\<lparr>acpiDevice := Some rootBridge, irqVector := Some 11\<rparr>)"
proof -
  have h: "acpiDevice (nic\<lparr>acpiDevice := Some rootBridge, irqVector := Some 11\<rparr>) = Some rootBridge"
    by simp
  from attachAcpiDevice_twice [OF h, of "AcpiDevice True False 0x20000 0 (Some rootBridge) None" 5]
  show ?thesis by simp
qed

subsection \<open>The driver pass\<close>

lemma startDriver_returns: "startDriver P d s = (Inr (), d, s)"
  by (simp add: startDriver_def)

text \<open>
  C9. The driver pass does nothing: \<open>driverData\<close> is null for every device, so the
  guard of the callback returns before the BAR loop, the command flags and the driver
  call. The pass ends normally with the devices, the list of started drivers and the
  accessor and hardware state all as they were.
\<close>

theorem startDrivers_noop:
  "startDrivers P devicesMap (started, c) = (Inr (), devicesMap, started, c)"
  unfolding startDrivers_def
  by (induction devicesMap) (simp_all add: startDriver_returns)

theorem startDrivers_noop_witness:
  "startDrivers simPorts [nic] ([], cfg0) = (Inr (), [nic], [], cfg0)"
  by (rule startDrivers_noop)

subsection \<open>IRQ routing\<close>

lemma scanRoutes_last:
  "scanRoutes slotNo devicePin rs deviceIRQ =
     (if filter (routeMatches slotNo devicePin) rs = [] then deviceIRQ
      else Some (route_irq (last (filter (routeMatches slotNo devicePin) rs))))"
  by (induction rs arbitrary: deviceIRQ) (auto simp: routeMatches_def)

lemma interruptPin_ok:
  "\<not> isBridge d \<Longrightarrow> \<exists>pin c'. interruptPin P d c = (Inr pin, c')"
  using read_ok [of INTERRUPT_PIN P "pciAccessor d" c]
  by (simp add: interruptPin_def INTERRUPT_PIN_def)

lemma nic_pin:
  "interruptPin simPorts nic cfg0 = (Inr 3, snd (read simPorts (0, 2, 0) INTERRUPT_PIN cfg0))"
proof -
  have "fst (read simPorts (0, 2, 0) INTERRUPT_PIN cfg0) = Inr 3"
    using read_sim_coherent [of cfg0 "(0, 2, 0)" INTERRUPT_PIN]
    by (simp add: cfg0_coherent INTERRUPT_PIN_def dwToFieldValue_def sim_reg_def
        nic_config_address nic_regs_def)
  then show ?thesis
    by (simp add: interruptPin_def prod_eq_iff)
qed

text \<open>
  C1, as the code has it. For a device that is not a bridge, whose bus has a routing
  table, whose interrupt-pin register is nonzero and which has no vector yet, when
  some routing entry matches (\<open>entry.deviceId == device.slot\<close> and
  \<open>entry.pin + 1 == device.pin\<close>), the router assigns the irq of the LAST matching
  entry in table order: the scan does not stop at a match, and every later match
  overwrites the vector found so far. With one matching entry it is that entry's irq.
\<close>

theorem setIRQ_last_match:
  assumes "\<not> isBridge d"
    and "busRouting (bus (address d)) = Some routing"
    and "fst (interruptPin P d c) = Inr devicePin" and "devicePin \<noteq> 0"
    and "irqVector d = None"
    and "filter (routeMatches (slot (address d)) devicePin) routing \<noteq> []"
  shows "setIRQ P busRouting d c =
           (Inr (),
            d\<lparr>irqVector := Some (of_nat (route_irq
                 (last (filter (routeMatches (slot (address d)) devicePin) routing))))\<rparr>,
            snd (interruptPin P d c))"
proof -
  obtain c1 where p: "interruptPin P d c = (Inr devicePin, c1)"
    using interruptPin_ok [OF assms(1), of P c] assms(3) by auto
  show ?thesis
    using assms(1,2,4,5,6) p
    by (simp add: setIRQ_def scanRoutes_last setIRQVector_def)
qed

theorem setIRQ_last_match_witness:
  "\<not> isBridge nic \<and> fst (interruptPin simPorts nic cfg0) = Inr 3 \<and>
   filter (routeMatches (slot (address nic)) 3) twoRoutes = twoRoutes \<and>
   setIRQ simPorts [0 \<mapsto> twoRoutes] nic cfg0 =
     (Inr (), nic\<lparr>irqVector := Some 10\<rparr>, snd (interruptPin simPorts nic cfg0))"
proof -
  have h1: "\<not> isBridge nic" by simp
  have h2: "[0 \<mapsto> twoRoutes] (bus (address nic)) = Some twoRoutes" by simp
  have h3: "fst (interruptPin simPorts nic cfg0) = Inr 3" by (simp add: nic_pin)
  have h4: "(3::u32) \<noteq> 0" by simp
  have h5: "irqVector nic = None" by simp
  have f: "filter (routeMatches (slot (address nic)) 3) twoRoutes = twoRoutes"
    by (simp add: twoRoutes_def routeMatches_def)
  then have h6: "filter (routeMatches (slot (address nic)) 3) twoRoutes \<noteq> []"
    by (simp add: twoRoutes_def)
  from setIRQ_last_match [where busRouting = "[0 \<mapsto> twoRoutes]" and d = nic and P = simPorts
      and c = cfg0 and routing = twoRoutes and devicePin = 3, OF h1 h2 h3 h4 h5 h6] h1 h3 f
  show ?thesis by (simp add: twoRoutes_def)
qed

text \<open>
  C1 as stated fails when several entries match: the example device (slot 2, pin
  register 3) with the two entries of \<open>twoRoutes\<close>. The first matching entry has irq
  11; the vector assigned is 10, the irq of the second.
\<close>

theorem setIRQ_first_match_counterexample:
  "\<not> isBridge nic \<and> fst (interruptPin simPorts nic cfg0) = Inr 3 \<and>
   find (routeMatches (slot (address nic)) 3) twoRoutes =
     Some \<lparr>route_deviceId = 2, route_pin = 2, route_irq = 11\<rparr> \<and>
   fst (setIRQ simPorts [0 \<mapsto> twoRoutes] nic cfg0) = Inr () \<and>
   getIRQVector (fst (snd (setIRQ simPorts [0 \<mapsto> twoRoutes] nic cfg0))) = Some 10"
  by (simp add: setIRQ_def nic_pin twoRoutes_def routeMatches_def setIRQVector_def
      getIRQVector_def)

subsection \<open>Writing a field and reading it back\<close>

text \<open>
  What holds of \<open>write\<close> on any hardware: the cache entry of the field's offset is gone
  after it (see \<open>writeField_evicts\<close>), and a read of any field of that offset then goes
  to the hardware and stores what it returns.
\<close>

lemma read_after_write:
  assumes "offset fld' = offset fld" and "offset fld mod 4 = 0"
  shows "read P k fld' (snd (writeField P k fld v c)) =
           (Inr (dwToFieldValue
                   (fst (rawRead P k (offset fld) (hw (snd (writeField P k fld v c))))) fld'),
            (snd (writeField P k fld v c))
              \<lparr>hw := snd (rawRead P k (offset fld) (hw (snd (writeField P k fld v c)))),
               offsetCache := (offsetCache (snd (writeField P k fld v c)))
                 (k := (offsetCache (snd (writeField P k fld v c)) k)
                    (offset fld \<mapsto>
                       fst (rawRead P k (offset fld) (hw (snd (writeField P k fld v c))))))\<rparr>)"
  using read_uncached [of "snd (writeField P k fld v c)" k fld' P] assms
  by (simp add: writeField_evicts)

text \<open>
  The byte shift of a field reaches only \<open>setPort\<close>, which masks the offset with 0xfc,
  and the data port is the same for every write: on any hardware, a write of STATUS
  is the write of COMMAND with the same value.
\<close>

lemma writeField_shift_lost:
  "writeField P k STATUS v c = writeField P k COMMAND v c"
  by (simp add: writeField_def STATUS_def COMMAND_def writeRaw16_def setPort_def
      config_address_def)

lemma writeField16_sim:
  "mask_field fld = 0xffff \<Longrightarrow> (offset fld + shift fld) mod 2 = 0 \<Longrightarrow>
   writeField simPorts k fld v c =
     (Inr (), c\<lparr>hw := sim_store 0xffff (v AND 0xffff)
                      ((hw c)\<lparr>latch := config_address (acc_bus k) (acc_slot k) (acc_func k)
                                          (offset fld + shift fld)\<rparr>),
               offsetCache := (offsetCache c)(k := (offsetCache c k)(offset fld := None))\<rparr>)"
  by (simp add: writeField_def writeRaw16_def simPorts_def setPort_def Let_def)

lemma writeField8_sim:
  "mask_field fld = 0xff \<Longrightarrow>
   writeField simPorts k fld v c =
     (Inr (), c\<lparr>hw := sim_store 0xff (v AND 0xff)
                      ((hw c)\<lparr>latch := config_address (acc_bus k) (acc_slot k) (acc_func k)
                                          (offset fld + shift fld)\<rparr>),
               offsetCache := (offsetCache c)(k := (offsetCache c k)(offset fld := None))\<rparr>)"
  by (simp add: writeField_def writeRaw8_def simPorts_def setPort_def Let_def)

lemma stored_bits:
  assumes "w AND m = m"
  shows "(((v AND m) AND (m AND w)) OR (x AND NOT (m AND w))) AND m = v AND (m::u32)"
proof -
  have "\<And>n. bit m n \<Longrightarrow> bit w n"
    using assms by (metis bit_and_iff)
  then show ?thesis
    by (intro bit_eqI) (auto simp: bit_simps)
qed

lemma dwToFieldValue_shift0: "shift fld = 0 \<Longrightarrow> dwToFieldValue x fld = x AND mask_field fld"
  by (simp add: dwToFieldValue_def)

text \<open>
  On the simulated configuration space the round trip does hold for a field with byte
  shift 0 whose bits the register lets software change.
\<close>

lemma roundtrip_shift0:
  assumes "shift fld = 0" and "offset fld mod 4 = 0"
    and "mask_field fld = 0xff \<or> mask_field fld = 0xffff \<or> mask_field fld = 0xffffffff"
    and "writable (hw c) (config_address (acc_bus k) (acc_slot k) (acc_func k) (offset fld))
           AND mask_field fld = mask_field fld"
  shows "fst (read simPorts k fld (snd (writeField simPorts k fld v c))) = Inr (v AND mask_field fld)"
proof -
  let ?A = "config_address (acc_bus k) (acc_slot k) (acc_func k) (offset fld)"
  let ?c' = "snd (writeField simPorts k fld v c)"
  have al: "offset fld mod 2 = 0" using assms(2) by presburger
  have hwc: "hw ?c' = sim_store (mask_field fld) (v AND mask_field fld) ((hw c)\<lparr>latch := ?A\<rparr>)"
    using assms(1,2,3) al
    by (auto simp: writeField8_sim writeField16_sim writeField32_sim and_ones32)
  have reg: "sim_reg (hw ?c') k (offset fld) =
               ((v AND mask_field fld) AND (mask_field fld AND writable (hw c) ?A)) OR
               (regs (hw c) ?A AND NOT (mask_field fld AND writable (hw c) ?A))"
    by (simp add: hwc sim_store_def sim_reg_def)
  have "coherent ?c' k (offset fld)" by (rule coherent_after_write)
  from read_sim_coherent [OF this assms(2)]
  have "fst (read simPorts k fld ?c') = Inr (dwToFieldValue (sim_reg (hw ?c') k (offset fld)) fld)"
    by blast
  also have "dwToFieldValue (sim_reg (hw ?c') k (offset fld)) fld = v AND mask_field fld"
    unfolding dwToFieldValue_shift0 [OF assms(1)] reg by (rule stored_bits [OF assms(4)])
  finally show ?thesis .
qed

text \<open>
  C6 at a failing input. On the simulated configuration space, whose command/status
  dword of the example device is 0 and writable in full: \<open>write(STATUS, 0x1234)\<close>
  returns normally, and the read of STATUS that follows goes to the hardware and
  returns 0, not 0x1234; the value has gone to the low half of the dword, where
  COMMAND now reads 0x1234.
\<close>

theorem write_STATUS_not_read_back:
  "fst (writeField simPorts (0, 2, 0) STATUS 0x1234 cfg0) = Inr () \<and>
   fst (read simPorts (0, 2, 0) STATUS
          (snd (writeField simPorts (0, 2, 0) STATUS 0x1234 cfg0))) = Inr 0 \<and>
   fst (read simPorts (0, 2, 0) COMMAND
          (snd (writeField simPorts (0, 2, 0) STATUS 0x1234 cfg0))) = Inr 0x1234"
  by (simp add: writeField16_sim STATUS_def COMMAND_def read_uncached rawRead_sim cfg0_def
      nic_hw_def sim_store_def sim_reg_def nic_config_address nic_regs_def nic_writable_def
      dwToFieldValue_def)

subsection \<open>ACPI resolution\<close>

lemma locate_not_device:
  "\<not> acpi_isDevice a \<Longrightarrow> locateAcpiDevice P a c = (Inr None, c)"
  by (cases a) simp

lemma locate_never_root:
  "\<not> reachesRootBridge a \<Longrightarrow> locateAcpiDevice P a c = (Inr None, c)"
proof (induction a arbitrary: c)
  case (AcpiDevice isDev isRoot addr rootBus par routes)
  show ?case
  proof (cases par)
    case None
    with AcpiDevice.prems show ?thesis by (simp add: Let_def)
  next
    case (Some p)
    with AcpiDevice.prems have np: "\<not> reachesRootBridge p" and nr: "\<not> isRoot" by simp_all
    from np have "\<not> acpi_isRootBridge p" by (cases p) simp
    moreover have "locateAcpiDevice P p c = (Inr None, c)"
      using AcpiDevice.IH [of p c] Some np by simp
    ultimately show ?thesis using Some nr by (simp add: Let_def)
  qed
qed

text \<open>Resolution returns null exactly for the unresolvable nodes.\<close>

lemma unresolvable_iff: "fst (locateAcpiDevice P a c) = Inr None \<longleftrightarrow> unresolvable P a c"
proof (induction a arbitrary: c)
  case (AcpiDevice isDev isRoot addr rootBus par routes)
  show ?case
  proof (cases par)
    case None
    then show ?thesis by (simp add: Let_def)
  next
    case (Some p)
    have ih: "fst (locateAcpiDevice P p c) = Inr None \<longleftrightarrow> unresolvable P p c"
      using AcpiDevice.IH [of p c] Some by simp
    show ?thesis
      using Some ih
      by (auto simp: Let_def parentNotBridge_def andThen_def
          split: prod.splits sum.splits option.splits)
  qed
qed

lemma never_root_unresolvable: "\<not> reachesRootBridge a \<Longrightarrow> unresolvable P a c"
  using locate_never_root [of a P c] unresolvable_iff [of P a c] by simp











subsection \<open>listPciDevices\<close>

lemma classData_ok: "\<exists>v c'. classData P d c = (Inr v, c')"
proof -
  obtain code c1 where r1: "read P (pciAccessor d) CLASS_CODE c = (Inr code, c1)"
    using read_ok [of CLASS_CODE P "pciAccessor d" c] by (auto simp: CLASS_CODE_def)
  obtain sub c2 where r2: "read P (pciAccessor d) SUBCLASS c1 = (Inr sub, c2)"
    using read_ok [of SUBCLASS P "pciAccessor d" c1] by (auto simp: SUBCLASS_def)
  show ?thesis by (simp add: classData_def andThen_def r1 r2)
qed

lemma subsystemData_ok: "\<not> isBridge d \<Longrightarrow> \<exists>v c'. subsystemData P d c = (Inr v, c')"
proof -
  assume nb: "\<not> isBridge d"
  obtain sid c1 where r1: "read P (pciAccessor d) SUBSYS_ID c = (Inr sid, c1)"
    using read_ok [of SUBSYS_ID P "pciAccessor d" c] by (auto simp: SUBSYS_ID_def)
  obtain sv c2 where r2: "read P (pciAccessor d) SUBSYS_VENDOR c1 = (Inr sv, c2)"
    using read_ok [of SUBSYS_VENDOR P "pciAccessor d" c1] by (auto simp: SUBSYS_VENDOR_def)
  show ?thesis using nb by (simp add: subsystemData_def andThen_def r1 r2)
qed

text \<open>The BAR loop on a device that is not a bridge: six probes, none throws.\<close>

lemma collectBars_probes:
  assumes "\<not> isBridge d"
  shows "i \<le> 6 \<Longrightarrow>
         collectBars P d i bars (probeState P d c0 i) =
           (Inr (bars @ map (\<lambda>j. barData (probeResult P d c0 j)) [i..<6]), probeState P d c0 6)"
proof (induction "6 - i" arbitrary: i bars)
  case 0
  then have "i = 6" by simp
  then show ?case by (subst collectBars.simps) simp
next
  case (Suc n)
  then have i: "i < 6" "i \<le> 5" by simp_all
  obtain b c' where g: "getBAR P d i (probeState P d c0 i) = (Inr b, c')"
    using getBAR_ok [OF assms i(2)] by blast
  have st: "probeState P d c0 (Suc i) = c'" by (simp add: g)
  have pr: "probeResult P d c0 i = b" by (simp add: probeResult_def g)
  have "collectBars P d (Suc i) (bars @ [barData b]) (probeState P d c0 (Suc i)) =
          (Inr ((bars @ [barData b]) @ map (\<lambda>j. barData (probeResult P d c0 j)) [Suc i..<6]),
           probeState P d c0 6)"
    using Suc.hyps(1) [of "Suc i" "bars @ [barData b]"] Suc.hyps(2) i by simp
  moreover have "[i..<6] = i # [Suc i..<6]"
    using i by (simp add: upt_conv_Cons)
  ultimately show ?case
    using i g st pr by (subst collectBars.simps) simp
qed

lemma listDevice_bridge:
  "isBridge d \<Longrightarrow> listDevice P d (results, c) = (Inr (), d, results, c)"
  by (simp add: listDevice_def)

lemma barData_None: "barData b = None \<longleftrightarrow> b = None"
  by (cases b) (simp_all add: barData_def)

lemma probeResult_None:
  assumes "\<not> isBridge d" and "i \<le> 5"
  shows "(barData (probeResult P d c0 i) = None) =
         (fst (getBAR P d i (probeState P d c0 i)) = Inr None)"
proof -
  obtain b c' where "getBAR P d i (probeState P d c0 i) = (Inr b, c')"
    using getBAR_ok [OF assms] by blast
  then show ?thesis by (simp add: probeResult_def barData_None)
qed

lemma upt6: "[0..<6] = [0, 1, 2, 3, 4, 5::nat]"
  by (simp add: upt_rec)

text \<open>
  The callback on a device that is not a bridge: it returns normally, adds one
  summary of the device at the state it started from, and ends in the state after
  the sixth probe.
\<close>

lemma listDevice_nonbridge_at:
  assumes "\<not> isBridge d"
  shows "\<exists>s. listDevice P d (results, c) =
               (Inr (), d, results @ [s], probeState P d (barLoopStart P d c) 6) \<and>
             summarisesAt P s d c"
proof -
  obtain cls c1 where r1: "classData P d c = (Inr cls, c1)"
    using classData_ok by blast
  obtain sub c2 where r2: "subsystemData P d c1 = (Inr sub, c2)"
    using subsystemData_ok [OF assms] by blast
  obtain pin c3 where r3: "interruptPin P d c2 = (Inr pin, c3)"
    using interruptPin_ok [OF assms] by blast
  have c3: "barLoopStart P d c = c3"
    by (simp add: barLoopStart_def r1 r2 r3)
  have r4: "collectBars P d 0 [] c3 =
              (Inr (map (\<lambda>j. barData (probeResult P d c3 j)) [0..<6]), probeState P d c3 6)"
    using collectBars_probes [OF assms, of 0 P "[]" c3] by simp
  have n: "list_all (\<lambda>i. (map (\<lambda>j. barData (probeResult P d c3 j)) [0..<6] ! i = None) =
                   (fst (getBAR P d i (probeState P d c3 i)) = Inr None)) [0..<6]"
    unfolding upt6 using probeResult_None [OF assms, of _ P c3] by simp
  show ?thesis
    using assms n
    by (simp add: listDevice_def andThen_def r1 r2 r3 r4 getIRQVector_def c3
        summarisesAt_def sameDevice_def)
qed

lemma each_listed:
  "\<exists>rs c'. each (listDevice P) devs (results, c) = (Inr (), devs, results @ rs, c') \<and>
           listed P devs c rs \<and>
           list_all2 sameDevice rs (filter (\<lambda>d. \<not> isBridge d) devs)"
proof (induction devs arbitrary: results c)
  case Nil
  show ?case by simp
next
  case (Cons d devs)
  show ?case
  proof (cases "isBridge d")
    case True
    obtain rs c' where
      "each (listDevice P) devs (results, c) = (Inr (), devs, results @ rs, c')"
      "listed P devs c rs" "list_all2 sameDevice rs (filter (\<lambda>d. \<not> isBridge d) devs)"
      using Cons.IH by blast
    with True show ?thesis by (simp add: listDevice_bridge)
  next
    case False
    obtain s where s: "listDevice P d (results, c) =
          (Inr (), d, results @ [s], probeState P d (barLoopStart P d c) 6)"
        "summarisesAt P s d c"
      using listDevice_nonbridge_at [OF False] by blast
    obtain rs c' where
      "each (listDevice P) devs (results @ [s], probeState P d (barLoopStart P d c) 6) =
         (Inr (), devs, (results @ [s]) @ rs, c')"
      "listed P devs (probeState P d (barLoopStart P d c) 6) rs"
      "list_all2 sameDevice rs (filter (\<lambda>d. \<not> isBridge d) devs)"
      using Cons.IH by blast
    moreover have "sameDevice s d"
      using s(2) unfolding summarisesAt_def by blast
    ultimately have
      "each (listDevice P) (d # devs) (results, c) = (Inr (), d # devs, results @ (s # rs), c') \<and>
       listed P (d # devs) c (s # rs) \<and>
       list_all2 sameDevice (s # rs) (filter (\<lambda>d. \<not> isBridge d) (d # devs))"
      using False s by simp
    then show ?thesis by blast
  qed
qed

lemma classData_state:
  "snd (classData P d c) =
     snd (read P (pciAccessor d) SUBCLASS (snd (read P (pciAccessor d) CLASS_CODE c)))"
proof -
  obtain code c1 where r1: "read P (pciAccessor d) CLASS_CODE c = (Inr code, c1)"
    using read_ok [of CLASS_CODE P "pciAccessor d" c] by (auto simp: CLASS_CODE_def)
  obtain sub c2 where r2: "read P (pciAccessor d) SUBCLASS c1 = (Inr sub, c2)"
    using read_ok [of SUBCLASS P "pciAccessor d" c1] by (auto simp: SUBCLASS_def)
  show ?thesis by (simp add: classData_def andThen_def r1 r2)
qed

lemma subsystemData_state:
  assumes "\<not> isBridge d"
  shows "snd (subsystemData P d c) =
     snd (read P (pciAccessor d) SUBSYS_VENDOR (snd (read P (pciAccessor d) SUBSYS_ID c)))"
proof -
  obtain sid c1 where r1: "read P (pciAccessor d) SUBSYS_ID c = (Inr sid, c1)"
    using read_ok [of SUBSYS_ID P "pciAccessor d" c] by (auto simp: SUBSYS_ID_def)
  obtain sv c2 where r2: "read P (pciAccessor d) SUBSYS_VENDOR c1 = (Inr sv, c2)"
    using read_ok [of SUBSYS_VENDOR P "pciAccessor d" c1] by (auto simp: SUBSYS_VENDOR_def)
  show ?thesis using assms by (simp add: subsystemData_def andThen_def r1 r2)
qed

lemma barLoopStart_sim:
  assumes "\<not> isBridge d" and "allCoherent c"
  shows "regs (hw (barLoopStart simPorts d c)) = regs (hw c)"
    and "writable (hw (barLoopStart simPorts d c)) = writable (hw c)"
    and "allCoherent (barLoopStart simPorts d c)"
proof -
  let ?k = "pciAccessor d"
  let ?c1 = "snd (read simPorts ?k CLASS_CODE c)"
  let ?c2 = "snd (read simPorts ?k SUBCLASS ?c1)"
  let ?c3 = "snd (read simPorts ?k SUBSYS_ID ?c2)"
  let ?c4 = "snd (read simPorts ?k SUBSYS_VENDOR ?c3)"
  let ?c5 = "snd (read simPorts ?k INTERRUPT_PIN ?c4)"
  have al: "offset CLASS_CODE mod 4 = 0" "offset SUBCLASS mod 4 = 0" "offset SUBSYS_ID mod 4 = 0"
      "offset SUBSYS_VENDOR mod 4 = 0" "offset INTERRUPT_PIN mod 4 = 0"
    by (simp_all add: CLASS_CODE_def SUBCLASS_def SUBSYS_ID_def SUBSYS_VENDOR_def INTERRUPT_PIN_def)
  note f1 = read_sim_frame [OF al(1) assms(2), of ?k]
  note f2 = read_sim_frame [OF al(2) f1(3), of ?k]
  note f3 = read_sim_frame [OF al(3) f2(3), of ?k]
  note f4 = read_sim_frame [OF al(4) f3(3), of ?k]
  note f5 = read_sim_frame [OF al(5) f4(3), of ?k]
  have st: "barLoopStart simPorts d c = ?c5"
    using assms(1)
    by (simp add: barLoopStart_def classData_state subsystemData_state interruptPin_def)
  show "regs (hw (barLoopStart simPorts d c)) = regs (hw c)"
    unfolding st using f1(1) f2(1) f3(1) f4(1) f5(1) by simp
  show "writable (hw (barLoopStart simPorts d c)) = writable (hw c)"
    unfolding st using f1(2) f2(2) f3(2) f4(2) f5(2) by simp
  show "allCoherent (barLoopStart simPorts d c)"
    unfolding st by (rule f5(3))
qed

lemma cfg0_allCoherent: "allCoherent cfg0"
  by (simp add: allCoherent_def cfg0_coherent)

lemma nic_simBar:
  "map (\<lambda>i. barData (simBar \<lparr>latch = 0, regs = nic_regs, writable = nic_writable\<rparr> (0, 2, 0) i))
     [0, 1, 2, 3, 4, 5] =
   [Some \<lparr>data_type = ''mem32'', data_resource = MemoryBlock 0xFE000000 0x100000\<rparr>,
    None, None, None, None,
    Some \<lparr>data_type = ''io'', data_resource = IoSubrange 0xc000 0xc01f\<rparr>]"
  by (simp add: simBar_def sim_reg_def BAR_def nic_config_address nic_regs_def nic_writable_def
      decodeBAR_def barReturn_def BAR_64_def BAR_IO_def barData_def Let_def)

text \<open>
  C8. For every registry and every state of the accessors and the hardware,
  \<open>listPciDevices()\<close> returns normally. Its result has, in the order of the registry,
  one summary for each device that is not a bridge and none for a bridge. Each
  summary carries its device's address, ids, vector and accessor, and its \<open>bars\<close> has
  exactly 6 entries: the data of the six probes that the call runs on that device, in
  the state the traversal has reached, in index order, null exactly at the indices
  whose probe returns null.
\<close>

theorem listPciDevices_listed:
  "\<exists>results. fst (listPciDevices P devicesMap c) = Inr results \<and>
     list_all2 sameDevice results (filter (\<lambda>d. \<not> isBridge d) devicesMap) \<and>
     listed P devicesMap c results"
proof -
  obtain rs c' where
    "each (listDevice P) devicesMap ([], c) = (Inr (), devicesMap, [] @ rs, c')"
    "listed P devicesMap c rs"
    "list_all2 sameDevice rs (filter (\<lambda>d. \<not> isBridge d) devicesMap)"
    using each_listed by blast
  then show ?thesis by (simp add: listPciDevices_def)
qed

theorem listPciDevices_listed_witness:
  "\<exists>results. fst (listPciDevices simPorts [bridgeDev, nic] cfg0) = Inr results \<and>
     map sum_slot results = [2] \<and>
     map sum_bars results =
       [[Some \<lparr>data_type = ''mem32'', data_resource = MemoryBlock 0xFE000000 0x100000\<rparr>,
         None, None, None, None,
         Some \<lparr>data_type = ''io'', data_resource = IoSubrange 0xc000 0xc01f\<rparr>]]"
proof -
  have nb: "\<not> isBridge nic" by simp
  note b = barLoopStart_sim [OF nb cfg0_allCoherent]
  have pr: "map (\<lambda>i. barData (probeResult simPorts nic (barLoopStart simPorts nic cfg0) i))
              [0, 1, 2, 3, 4, 5] =
            map (\<lambda>i. barData (simBar \<lparr>latch = 0, regs = nic_regs, writable = nic_writable\<rparr> (0, 2, 0) i))
              [0, 1, 2, 3, 4, 5]"
    using probeResult_sim [OF nb b(3)] b(1,2) by simp
  obtain results where r: "fst (listPciDevices simPorts [bridgeDev, nic] cfg0) = Inr results"
      "listed simPorts [bridgeDev, nic] cfg0 results"
    using listPciDevices_listed [of simPorts "[bridgeDev, nic]" cfg0] by blast
  from r(2) obtain s where s: "results = [s]" "summarisesAt simPorts s nic cfg0"
    by (auto simp: bridgeDev_def split: list.splits)
  from s(2) have "sum_slot s = slot (address nic)"
    unfolding summarisesAt_def sameDevice_def by blast
  then have sl: "sum_slot s = 2" by simp
  from s(2) have "sum_bars s =
      map (\<lambda>i. barData (probeResult simPorts nic (barLoopStart simPorts nic cfg0) i)) [0..<6]"
    unfolding summarisesAt_def by blast
  then have bs: "sum_bars s =
      [Some \<lparr>data_type = ''mem32'', data_resource = MemoryBlock 0xFE000000 0x100000\<rparr>,
       None, None, None, None,
       Some \<lparr>data_type = ''io'', data_resource = IoSubrange 0xc000 0xc01f\<rparr>]"
    unfolding upt6 pr nic_simBar .
  from r(1) s(1) sl bs show ?thesis by simp
qed

end
